theory Spec2Isabelle
  imports Complex_Main "HOL-Library.Word"
begin

unbundle bit_operations_syntax

section \<open>Data model of \<^verbatim>\<open>src/modules/Telescope.cpp\<close>\<close>

text \<open>
  The telescope client of Stellarium: a TCP client that keeps a ring of the last
  sixteen reported positions and answers position queries by interpolation.

  Conventions of the embedding.
  \<^item> \<^verbatim>\<open>long long int\<close> is \<open>64 word\<close>, \<^verbatim>\<open>int\<close> and \<^verbatim>\<open>unsigned int\<close> are \<open>32 word\<close>,
    \<^verbatim>\<open>char\<close> is \<open>8 word\<close>; a signed comparison \<^verbatim>\<open>a <= b\<close> is \<open>sint a \<le> sint b\<close>.
  \<^item> \<^verbatim>\<open>double\<close> is idealised as \<open>real\<close>: rounding, infinities and NaN are outside the model.
  \<^item> \<^verbatim>\<open>Position positions[16]\<close> is a function from the slot index, a \<open>4 word\<close>, and
    \<^verbatim>\<open>position_pointer\<close> is the index of the slot it points to; the two wrap-around tests
    of the source are kept as written.
  \<^item> \<^verbatim>\<open>char read_buff[120]\<close> and \<^verbatim>\<open>write_buff[120]\<close> are byte lists, with \<^verbatim>\<open>read_buff_end\<close>
    and \<^verbatim>\<open>write_buff_end\<close> the offsets of the end pointers from the start of the array.
  \<^item> Every call into the operating system (\<^verbatim>\<open>GetNow\<close>, \<^verbatim>\<open>socket\<close>, \<^verbatim>\<open>connect\<close>, \<^verbatim>\<open>recv\<close>,
    \<^verbatim>\<open>send\<close>, \<^verbatim>\<open>getsockopt\<close>, \<^verbatim>\<open>gethostbyname\<close>) is an argument holding what the call returned.
\<close>

type_synonym byte = "8 word"

subsection \<open>Vectors (\<^verbatim>\<open>Vec3d\<close> of \<^verbatim>\<open>VecMath.hpp\<close>, used through its operators)\<close>

datatype Vec3d = Vec3d real real real

fun vec_add :: "Vec3d \<Rightarrow> Vec3d \<Rightarrow> Vec3d" where
  "vec_add (Vec3d a b c) (Vec3d x y z) = Vec3d (a + x) (b + y) (c + z)"

fun vec_scale :: "Vec3d \<Rightarrow> real \<Rightarrow> Vec3d" where
  "vec_scale (Vec3d a b c) k = Vec3d (a * k) (b * k) (c * k)"

fun lengthSquared :: "Vec3d \<Rightarrow> real" where
  "lengthSquared (Vec3d a b c) = a * a + b * b + c * c"

fun vec_dot :: "Vec3d \<Rightarrow> Vec3d \<Rightarrow> real" where
  "vec_dot (Vec3d a b c) (Vec3d x y z) = a * x + b * y + c * z"

subsection \<open>The client object\<close>

record Position =
  server_micros :: "64 word"
  client_micros :: "64 word"
  pos :: Vec3d
  status :: "32 word"

record sockaddr_in =
  sin_family :: "16 word"
  sin_port :: "16 word"
  sin_addr :: "byte list"

record TelescopeTcp =
  name :: string
  address :: sockaddr_in
  fd :: int
  wait_for_connection_establishment :: bool
  end_of_timeout :: "64 word"
  read_buff :: "byte list"
  read_buff_end :: nat
  write_buff :: "byte list"
  write_buff_end :: nat
  time_delay :: "32 word"
  positions :: "4 word \<Rightarrow> Position"
  position_pointer :: "4 word"

text \<open>\<^verbatim>\<open>0x7FFFFFFFFFFFFFFFLL\<close>, the time stamp of a slot that holds no sample.\<close>

definition unset_micros :: "64 word" where
  "unset_micros = 0x7FFFFFFFFFFFFFFF"

definition INVALID_SOCKET :: int where
  "INVALID_SOCKET = - 1"

definition IS_INVALID_SOCKET :: "int \<Rightarrow> bool" where
  "IS_INVALID_SOCKET f = (f < 0)"

definition sizeof_buff :: nat where
  "sizeof_buff = 120"

definition unset_position :: Position where
  "unset_position =
     \<lparr>server_micros = unset_micros, client_micros = unset_micros,
      pos = Vec3d 0 0 0, status = 0\<rparr>"

definition isConnected :: "TelescopeTcp \<Rightarrow> bool" where
  "isConnected s = (\<not> IS_INVALID_SOCKET (fd s) \<and> \<not> wait_for_connection_establishment s)"

definition hasKnownPosition :: "TelescopeTcp \<Rightarrow> bool" where
  "hasKnownPosition s = (client_micros (positions s (position_pointer s)) \<noteq> unset_micros)"

text \<open>
  \<^verbatim>\<open>hangup\<close>: close the socket if there is one, empty both buffers, and put the unset
  sample into every slot. The timer \<^verbatim>\<open>end_of_timeout\<close> is not touched.
\<close>

definition hangup :: "TelescopeTcp \<Rightarrow> TelescopeTcp" where
  "hangup s =
     s\<lparr>fd := (if \<not> IS_INVALID_SOCKET (fd s) then INVALID_SOCKET else fd s),
       read_buff_end := 0,
       write_buff_end := 0,
       wait_for_connection_establishment := False,
       positions := (\<lambda>_. unset_position),
       position_pointer := 0\<rparr>"

subsection \<open>The position query\<close>

text \<open>The slot before \<open>p\<close> in the ring: \<^verbatim>\<open>if (pp == positions) pp = end_position; pp--;\<close>\<close>

definition prev_position :: "4 word \<Rightarrow> 4 word" where
  "prev_position p = (if p = 0 then 15 else p - 1)"

text \<open>The slot after \<open>p\<close>: \<^verbatim>\<open>p++; if (p >= end_position) p = positions;\<close>\<close>

definition next_position :: "4 word \<Rightarrow> 4 word" where
  "next_position p = (if p = 15 then 0 else p + 1)"

text \<open>
  The blend of the pair (\<open>older\<close>, \<open>newer\<close>) at the query time \<open>now\<close>, as the source
  computes it: the differences are 64-bit, then converted to \<^verbatim>\<open>double\<close>.
\<close>

definition blend :: "Position \<Rightarrow> Position \<Rightarrow> 64 word \<Rightarrow> Vec3d" where
  "blend older newer now =
     vec_add (vec_scale (pos newer) (real_of_int (sint (now - client_micros older))))
             (vec_scale (pos older) (real_of_int (sint (client_micros newer - now))))"

text \<open>
  The \<^verbatim>\<open>do ... while (p != position_pointer)\<close> loop of \<^verbatim>\<open>getObsJ2000Pos\<close>, entered at \<open>p\<close>.
  Each of the two \<^verbatim>\<open>break\<close>s and the exit of the loop end in \<^verbatim>\<open>return p->pos\<close>.
\<close>

function scan_positions :: "TelescopeTcp \<Rightarrow> 64 word \<Rightarrow> 4 word \<Rightarrow> Vec3d" where
  "scan_positions s now p =
     (let pp = prev_position p in
      if client_micros (positions s pp) = unset_micros then pos (positions s p)
      else if sint (client_micros (positions s pp)) \<le> sint now
              \<and> sint now \<le> sint (client_micros (positions s p)) then
        (if client_micros (positions s pp) \<noteq> client_micros (positions s p) then
           (let rval = blend (positions s pp) (positions s p) now;
                f = lengthSquared rval
            in if f > 0 then vec_scale rval (1 / sqrt f) else pos (positions s p))
         else pos (positions s p))
      else if pp \<noteq> position_pointer s then scan_positions s now pp
      else pos (positions s pp))"
  by pat_completeness auto

lemma prev_position_minus: "prev_position p = p - 1"
  by (simp add: prev_position_def)

termination scan_positions
proof (relation "measure (\<lambda>(s, now, p). unat (p - position_pointer s - 1))")
  show "wf (measure (\<lambda>(s, now, p). unat (p - position_pointer s - 1)))"
    by simp
next
  fix s :: TelescopeTcp and now :: "64 word" and p x :: "4 word"
  assume x: "x = prev_position p" and ne: "x \<noteq> position_pointer s"
  define w where "w = p - position_pointer s - 1"
  have w0: "w \<noteq> 0"
  proof
    assume "w = 0"
    then have "p - 1 = position_pointer s" by (simp add: w_def algebra_simps)
    then show False using x ne by (simp add: prev_position_minus)
  qed
  have "unat w \<noteq> 0" using w0 by (simp add: unat_eq_zero)
  moreover have "unat (w - 1) = unat w - 1" using w0 by (rule unat_minus_one)
  ultimately have lt: "unat (w - 1) < unat w" by simp
  have eq: "x - position_pointer s - 1 = w - 1"
    using x by (simp add: prev_position_minus w_def)
  have "unat (x - position_pointer s - 1) < unat (p - position_pointer s - 1)"
    unfolding eq using lt unfolding w_def .
  then show "((s, now, x), (s, now, p))
      \<in> measure (\<lambda>(s, now, p). unat (p - position_pointer s - 1))"
    unfolding in_measure by (simp only: prod.case)
qed

declare scan_positions.simps [simp del]

text \<open>
  \<^verbatim>\<open>getObsJ2000Pos\<close>; \<open>now\<close> is what \<^verbatim>\<open>GetNow()\<close> returned. The subtraction of the
  \<^verbatim>\<open>int\<close> \<^verbatim>\<open>time_delay\<close> is done in 64 bits.
\<close>

definition getObsJ2000Pos :: "TelescopeTcp \<Rightarrow> 64 word \<Rightarrow> Vec3d" where
  "getObsJ2000Pos s now =
     (if client_micros (positions s (position_pointer s)) = unset_micros then Vec3d 0 0 0
      else scan_positions s (now - scast (time_delay s)) (position_pointer s))"

subsection \<open>Decoding and storing an inbound position packet\<close>

text \<open>The little-endian fields, assembled from the bytes as the source does.\<close>

definition le16 :: "byte \<Rightarrow> byte \<Rightarrow> 32 word" where
  "le16 b0 b1 = ucast b0 OR push_bit 8 (ucast b1)"

definition le32 :: "byte \<Rightarrow> byte \<Rightarrow> byte \<Rightarrow> byte \<Rightarrow> 32 word" where
  "le32 b0 b1 b2 b3 =
     ucast b0 OR push_bit 8 (ucast b1) OR push_bit 16 (ucast b2) OR push_bit 24 (ucast b3)"

definition le64 :: "byte list \<Rightarrow> 64 word" where
  "le64 bs =
     ucast (bs ! 0) OR push_bit 8 (ucast (bs ! 1)) OR push_bit 16 (ucast (bs ! 2))
     OR push_bit 24 (ucast (bs ! 3)) OR push_bit 32 (ucast (bs ! 4))
     OR push_bit 40 (ucast (bs ! 5)) OR push_bit 48 (ucast (bs ! 6))
     OR push_bit 56 (ucast (bs ! 7))"

text \<open>
  Lines 503 to 513 of \<^verbatim>\<open>performReading\<close>: advance the write cursor with wrap-around and
  fill the slot. \<open>ra_int\<close> is read as unsigned, \<open>dec_int\<close> as signed; \<open>now\<close> is what
  \<^verbatim>\<open>GetNow()\<close> returned.
\<close>

definition store_position ::
  "TelescopeTcp \<Rightarrow> 64 word \<Rightarrow> 32 word \<Rightarrow> 32 word \<Rightarrow> 32 word \<Rightarrow> 64 word \<Rightarrow> TelescopeTcp" where
  "store_position s srv ra_int dec_int st now =
     (let pp = next_position (position_pointer s);
          ra = real_of_int (uint ra_int) * (pi / 2147483648);
          dec = real_of_int (sint dec_int) * (pi / 2147483648);
          cdec = cos dec
      in s\<lparr>positions := (positions s)
              (pp := \<lparr>server_micros = srv, client_micros = now,
                      pos = Vec3d (cos ra * cdec) (sin ra * cdec) (sin dec),
                      status = st\<rparr>),
           position_pointer := pp\<rparr>)"

text \<open>\<^verbatim>\<open>memmove(buf + dst, buf + src, n)\<close> inside one array.\<close>

definition memmove :: "byte list \<Rightarrow> nat \<Rightarrow> nat \<Rightarrow> nat \<Rightarrow> byte list" where
  "memmove buf dst src n = take dst buf @ take n (drop src buf) @ drop (dst + n) buf"

text \<open>The end of \<^verbatim>\<open>performReading\<close>, after the loop has stopped at offset \<open>p\<close>.\<close>

definition compact_read_buff :: "TelescopeTcp \<Rightarrow> nat \<Rightarrow> TelescopeTcp" where
  "compact_read_buff s p =
     (if p \<ge> read_buff_end s then s\<lparr>read_buff_end := 0\<rparr>
      else s\<lparr>read_buff := memmove (read_buff s) 0 p (read_buff_end s - p),
             read_buff_end := read_buff_end s - p\<rparr>)"

lemma read_buff_end_store_position:
  "read_buff_end (store_position s srv ra_int dec_int st now) = read_buff_end s"
  by (simp add: store_position_def Let_def)

text \<open>
  The \<^verbatim>\<open>while (read_buff_end-p >= 2)\<close> loop of \<^verbatim>\<open>performReading\<close>, entered at offset \<open>p\<close>.
  \<open>clock n\<close> is what the \<open>n\<close>-th call of \<^verbatim>\<open>GetNow()\<close> inside this invocation returns.
  A \<^verbatim>\<open>hangup(); return;\<close> leaves the function without compacting.
\<close>

function parse_packets :: "(nat \<Rightarrow> 64 word) \<Rightarrow> TelescopeTcp \<Rightarrow> nat \<Rightarrow> nat \<Rightarrow> TelescopeTcp" where
  "parse_packets clock s p n =
     (if int (read_buff_end s) - int p \<ge> 2 then
        (let size = sint (le16 (read_buff s ! p) (read_buff s ! (p + 1))) in
         if size > int sizeof_buff \<or> size < 4 then hangup s
         else if size > int (read_buff_end s) - int p then compact_read_buff s p
         else
           (let type = sint (le16 (read_buff s ! (p + 2)) (read_buff s ! (p + 3))) in
            if type = 0 then
              (if size < 24 then hangup s
               else parse_packets clock
                      (store_position s
                         (le64 (take 8 (drop (p + 4) (read_buff s))))
                         (le32 (read_buff s ! (p + 12)) (read_buff s ! (p + 13))
                               (read_buff s ! (p + 14)) (read_buff s ! (p + 15)))
                         (le32 (read_buff s ! (p + 16)) (read_buff s ! (p + 17))
                               (read_buff s ! (p + 18)) (read_buff s ! (p + 19)))
                         (le32 (read_buff s ! (p + 20)) (read_buff s ! (p + 21))
                               (read_buff s ! (p + 22)) (read_buff s ! (p + 23)))
                         (clock n))
                      (p + nat size) (Suc n))
            else parse_packets clock s (p + nat size) n))
      else compact_read_buff s p)"
  by pat_completeness auto
termination
  by (relation "measure (\<lambda>(clock, s, p, n). read_buff_end s - p)")
     (auto simp add: read_buff_end_store_position)

declare parse_packets.simps [simp del]

subsection \<open>Reading and writing the socket\<close>

datatype errno = EINTR | EAGAIN | EINPROGRESS | EOTHER nat

text \<open>What \<^verbatim>\<open>recv\<close> returned: \<open>rc < 0\<close> with \<^verbatim>\<open>errno\<close>, or the \<open>rc \<ge> 0\<close> bytes it delivered.\<close>

datatype recv_result = RecvFailed errno | RecvBytes "byte list"

text \<open>What \<^verbatim>\<open>send\<close> returned: \<open>rc < 0\<close> with \<^verbatim>\<open>errno\<close>, or the count \<open>rc \<ge> 0\<close> it took.\<close>

datatype send_result = SendFailed errno | SendDone nat

definition performReading :: "TelescopeTcp \<Rightarrow> recv_result \<Rightarrow> (nat \<Rightarrow> 64 word) \<Rightarrow> TelescopeTcp" where
  "performReading s r clock =
     (case r of
        RecvFailed e \<Rightarrow> if e \<noteq> EINTR \<and> e \<noteq> EAGAIN then hangup s else s
      | RecvBytes bs \<Rightarrow>
          if bs = [] then hangup s
          else parse_packets clock
                 (s\<lparr>read_buff := take (read_buff_end s) (read_buff s) @ bs
                                   @ drop (read_buff_end s + length bs) (read_buff s),
                     read_buff_end := read_buff_end s + length bs\<rparr>) 0 0)"

definition performWriting :: "TelescopeTcp \<Rightarrow> send_result \<Rightarrow> TelescopeTcp" where
  "performWriting s r =
     (let to_write = write_buff_end s in
      case r of
        SendFailed e \<Rightarrow> if e \<noteq> EINTR \<and> e \<noteq> EAGAIN then hangup s else s
      | SendDone rc \<Rightarrow>
          if rc > 0 then
            (if rc \<ge> to_write then s\<lparr>write_buff_end := 0\<rparr>
             else s\<lparr>write_buff := memmove (write_buff s) 0 rc (to_write - rc),
                    write_buff_end := write_buff_end s - rc\<rparr>)
          else s)"

subsection \<open>Queuing a goto command\<close>

text \<open>\<^verbatim>\<open>atan2\<close> of the C library, on the reals.\<close>

definition atan2 :: "real \<Rightarrow> real \<Rightarrow> real" where
  "atan2 y x =
     (if x > 0 then arctan (y / x)
      else if x < 0 then (if y \<ge> 0 then arctan (y / x) + pi else arctan (y / x) - pi)
      else if y > 0 then pi / 2
      else if y < 0 then - pi / 2
      else 0)"

text \<open>The \<open>n\<close> low bytes of a word, lowest first: \<^verbatim>\<open>*end++ = w; w >>= 8;\<close> repeated.\<close>

definition bytes_of :: "'a::len word \<Rightarrow> nat \<Rightarrow> byte list" where
  "bytes_of w n = map (\<lambda>i. ucast (drop_bit (8 * i) w)) [0..<n]"

text \<open>A run of \<^verbatim>\<open>*end++ = b\<close>, starting at offset \<open>off\<close>.\<close>

primrec write_bytes :: "byte list \<Rightarrow> nat \<Rightarrow> byte list \<Rightarrow> byte list" where
  "write_bytes buf off [] = buf"
| "write_bytes buf off (b # bs) = write_bytes (buf[off := b]) (Suc off) bs"

definition telescopeGoto :: "TelescopeTcp \<Rightarrow> Vec3d \<Rightarrow> 64 word \<Rightarrow> TelescopeTcp" where
  "telescopeGoto s j2000_pos now =
     (if isConnected s then
        (if int (write_buff_end s) + 20 < int sizeof_buff then
           (case j2000_pos of Vec3d x y z \<Rightarrow>
              (let ra = atan2 y x;
                   dec = atan2 z (sqrt (x * x + y * y));
                   ra_int = (word_of_int \<lfloor>0.5 + ra * (2147483648 / pi)\<rfloor> :: 32 word);
                   dec_int = (word_of_int \<lfloor>0.5 + dec * (2147483648 / pi)\<rfloor> :: 32 word)
               in s\<lparr>write_buff :=
                      write_bytes (write_buff s) (write_buff_end s)
                        ([20, 0, 0, 0] @ bytes_of now 8 @ bytes_of ra_int 4 @ bytes_of dec_int 4),
                    write_buff_end := write_buff_end s + 20\<rparr>))
         else s)
      else s)"

subsection \<open>The two hooks of the select loop\<close>

text \<open>What the system calls of \<^verbatim>\<open>prepareSelectFds\<close> returned.\<close>

record connect_calls =
  socket_fd :: int
  nonblocking_rc :: int
  connect_rc :: int
  connect_errno :: errno

type_synonym fd_sets = "int set \<times> int set \<times> int"

definition prepareSelectFds ::
  "TelescopeTcp \<Rightarrow> 64 word \<Rightarrow> connect_calls \<Rightarrow> fd_sets \<Rightarrow> TelescopeTcp \<times> fd_sets" where
  "prepareSelectFds s now sys fds =
     (case fds of (read_fds, write_fds, fd_max) \<Rightarrow>
      if IS_INVALID_SOCKET (fd s) then
        (if sint now < sint (end_of_timeout s) then (s, fds)
         else
           (let s1 = s\<lparr>end_of_timeout := now + 5000000, fd := socket_fd sys\<rparr> in
            if IS_INVALID_SOCKET (fd s1) then (s1, fds)
            else if nonblocking_rc sys \<noteq> 0 then (hangup s1, fds)
            else if connect_rc sys \<noteq> 0 then
              (if connect_errno sys \<noteq> EINPROGRESS \<and> connect_errno sys \<noteq> EAGAIN
               then (hangup s1, fds)
               else (s1\<lparr>wait_for_connection_establishment := True\<rparr>, fds))
            else (s1\<lparr>wait_for_connection_establishment := False\<rparr>, fds)))
      else
        (let fd_max1 = (if fd_max < fd s then fd s else fd_max) in
         if wait_for_connection_establishment s then
           (if sint now > sint (end_of_timeout s)
            then (hangup (s\<lparr>end_of_timeout := now + 1000000\<rparr>), read_fds, write_fds, fd_max1)
            else (s, read_fds, insert (fd s) write_fds, fd_max1))
         else
           (s, insert (fd s) read_fds,
            (if write_buff_end s > 0 then insert (fd s) write_fds else write_fds), fd_max1)))"

text \<open>What the system calls of \<^verbatim>\<open>handleSelectFds\<close> returned.\<close>

record ready_calls =
  getsockopt_rc :: int
  so_error :: int
  send_returns :: send_result
  recv_returns :: recv_result
  clock_returns :: "nat \<Rightarrow> 64 word"

definition handleSelectFds ::
  "TelescopeTcp \<Rightarrow> int set \<Rightarrow> int set \<Rightarrow> ready_calls \<Rightarrow> TelescopeTcp" where
  "handleSelectFds s read_fds write_fds sys =
     (if \<not> IS_INVALID_SOCKET (fd s) then
        (if wait_for_connection_establishment s then
           (if fd s \<in> write_fds then
              (let s1 = s\<lparr>wait_for_connection_establishment := False\<rparr> in
               if getsockopt_rc sys \<noteq> 0 then hangup s1
               else if so_error sys \<noteq> 0 then hangup s1
               else s1)
            else s)
         else
           (let s1 = (if fd s \<in> write_fds then performWriting s (send_returns sys) else s) in
            if \<not> IS_INVALID_SOCKET (fd s1) \<and> fd s1 \<in> read_fds
            then performReading s1 (recv_returns sys) (clock_returns sys)
            else s1))
      else s)"

subsection \<open>The factory \<^verbatim>\<open>Telescope::create\<close> and the constructors\<close>

text \<open>
  Strings are lists of characters. The two \<^verbatim>\<open>QRegExp\<close> patterns are anchored and their
  groups \<^verbatim>\<open>[^:]*\<close> cannot cross a colon, so a match is unique: the string is cut at its
  first colons. \<open>split_colon\<close> cuts at the first colon, if there is one.
\<close>

definition split_colon :: "string \<Rightarrow> (string \<times> string) option" where
  "split_colon u =
     (if CHR '':'' \<in> set u
      then Some (takeWhile (\<lambda>c. c \<noteq> CHR '':'') u, tl (dropWhile (\<lambda>c. c \<noteq> CHR '':'') u))
      else None)"

text \<open>\<^verbatim>\<open>^([^:]*):([^:]*)(:(.*))?$\<close>: the captures 1, 2 and 4; capture 4 is empty when absent.\<close>

definition recRx :: "string \<Rightarrow> (string \<times> string \<times> string) option" where
  "recRx url =
     (case split_colon url of
        None \<Rightarrow> None
      | Some (n, rest) \<Rightarrow>
          (case split_colon rest of
             None \<Rightarrow> Some (n, rest, [])
           | Some (t, ps) \<Rightarrow> Some (n, t, ps)))"

definition is_digit :: "char \<Rightarrow> bool" where
  "is_digit c = (48 \<le> (of_char c :: nat) \<and> (of_char c :: nat) \<le> 57)"

text \<open>\<^verbatim>\<open>^([^:]*):(\d+):(\d+)$\<close>: the captures 1, 2 and 3. A digit is one of \<^verbatim>\<open>0\<close> to \<^verbatim>\<open>9\<close>.\<close>

definition paramRx :: "string \<Rightarrow> (string \<times> string \<times> string) option" where
  "paramRx ps =
     (case split_colon ps of
        None \<Rightarrow> None
      | Some (h, rest) \<Rightarrow>
          (case split_colon rest of
             None \<Rightarrow> None
           | Some (pt, dl) \<Rightarrow>
               if pt \<noteq> [] \<and> list_all is_digit pt \<and> dl \<noteq> [] \<and> list_all is_digit dl
               then Some (h, pt, dl) else None))"

text \<open>\<^verbatim>\<open>QString::trimmed\<close>: white space (tab, line feed, vertical tab, form feed,
  carriage return, space) removed from both ends.\<close>

definition is_space :: "char \<Rightarrow> bool" where
  "is_space c = (c \<in> {CHR 0x09, CHR 0x0A, CHR 0x0B, CHR 0x0C, CHR 0x0D, CHR '' ''})"

definition trimmed :: "string \<Rightarrow> string" where
  "trimmed u = rev (dropWhile is_space (rev (dropWhile is_space u)))"

text \<open>The value of a string of decimal digits.\<close>

definition decimal :: "string \<Rightarrow> nat" where
  "decimal ds = foldl (\<lambda>a c. 10 * a + ((of_char c :: nat) - 48)) 0 ds"

text \<open>\<^verbatim>\<open>QString::toInt\<close> on a string of digits: the value, or 0 when it does not fit an
  \<^verbatim>\<open>int\<close> (the conversion fails and the \<^verbatim>\<open>ok\<close> flag is not looked at).\<close>

definition toInt :: "string \<Rightarrow> int" where
  "toInt ds = (if decimal ds \<le> 2147483647 then int (decimal ds) else 0)"

text \<open>\<^verbatim>\<open>htons\<close> and \<^verbatim>\<open>ntohs\<close> on a little-endian host: the two bytes swapped.\<close>

definition htons :: "16 word \<Rightarrow> 16 word" where
  "htons x = push_bit 8 x OR drop_bit 8 x"

definition ntohs :: "16 word \<Rightarrow> 16 word" where
  "ntohs x = push_bit 8 x OR drop_bit 8 x"

definition isInitialized :: "TelescopeTcp \<Rightarrow> bool" where
  "isInitialized s = (ntohs (sin_port (address s)) \<noteq> 0)"

text \<open>What \<^verbatim>\<open>gethostbyname\<close> returns: no entry, or an entry with an address and its length.\<close>

record hostent =
  h_length :: int
  h_addr :: "byte list"

text \<open>
  The constructor of \<^verbatim>\<open>TelescopeTcp\<close>. \<open>raw\<close> is the object before construction: a member
  the constructor does not assign keeps the value it has there. Every early \<^verbatim>\<open>return\<close>
  leaves \<^verbatim>\<open>sin_port\<close> at 0, which is how the factory recognises a failed construction.
\<close>

definition TelescopeTcp_new ::
  "(string \<Rightarrow> hostent option) \<Rightarrow> TelescopeTcp \<Rightarrow> string \<Rightarrow> string \<Rightarrow> TelescopeTcp" where
  "TelescopeTcp_new gethostbyname raw nm params =
     (let s0 = hangup (raw\<lparr>name := nm, fd := INVALID_SOCKET\<rparr>);
          s1 = s0\<lparr>address := (address s0)\<lparr>sin_port := htons 0\<rparr>\<rparr>
      in case paramRx params of
           None \<Rightarrow> s1
         | Some (h, pt, dl) \<Rightarrow>
             (let host = trimmed h;
                  port = toInt pt;
                  s2 = s1\<lparr>time_delay := word_of_int (toInt dl)\<rparr>
              in if port \<le> 0 \<or> port > 0xFFFF then s2
                 else if sint (time_delay s2) \<le> 0 \<or> sint (time_delay s2) > 10000000 then s2
                 else (case gethostbyname host of
                         None \<Rightarrow> s2
                       | Some hep \<Rightarrow>
                           if h_length hep \<noteq> 4 then s2
                           else s2\<lparr>address := \<lparr>sin_family = 2,
                                                sin_port = htons (word_of_int port),
                                                sin_addr = take 4 (h_addr hep)\<rparr>,
                                    end_of_timeout := - 0x8000000000000000,
                                    positions := (\<lambda>_. unset_position),
                                    position_pointer := 0\<rparr>)))"

record TelescopeDummy =
  dummy_name :: string
  XYZ :: Vec3d
  desired_pos :: Vec3d

definition TelescopeDummy_new :: "string \<Rightarrow> string \<Rightarrow> TelescopeDummy" where
  "TelescopeDummy_new nm params =
     \<lparr>dummy_name = nm, XYZ = Vec3d 1 0 0, desired_pos = Vec3d 1 0 0\<rparr>"

text \<open>
  Modelled from the spec: \<^verbatim>\<open>Telescope::isInitialized\<close>, the default that \<^verbatim>\<open>TelescopeDummy\<close>
  inherits, is declared in \<^verbatim>\<open>Telescope.hpp\<close>, which is not among the sources. The spec has
  the simulator always usable and the factory fail only when ``the constructed variant
  reports itself not fully initialized after parameter validation''; the simulator validates
  nothing, so the default answers true.
\<close>

definition Telescope_isInitialized :: "TelescopeDummy \<Rightarrow> bool" where
  "Telescope_isInitialized d = True"

datatype Telescope = Dummy TelescopeDummy | Tcp TelescopeTcp

definition create ::
  "(string \<Rightarrow> hostent option) \<Rightarrow> TelescopeTcp \<Rightarrow> string \<Rightarrow> Telescope option" where
  "create gethostbyname raw url =
     (case recRx url of
        None \<Rightarrow> None
      | Some (n, t, ps) \<Rightarrow>
          (let nm = trimmed n; type = trimmed t; params = trimmed ps in
           if type = ''Dummy'' then
             (let rval = TelescopeDummy_new nm params in
              if \<not> Telescope_isInitialized rval then None else Some (Dummy rval))
           else if type = ''TCP'' then
             (let rval = TelescopeTcp_new gethostbyname raw nm params in
              if \<not> isInitialized rval then None else Some (Tcp rval))
           else None))"

section \<open>Vocabulary of the properties\<close>

text \<open>The sample \<open>k\<close> steps behind the newest one in the ring; \<open>sample_back s 0\<close> is the newest.\<close>

definition sample_back :: "TelescopeTcp \<Rightarrow> nat \<Rightarrow> Position" where
  "sample_back s k = positions s (position_pointer s - of_nat k)"

text \<open>The query time \<open>Q\<close>: \<^verbatim>\<open>GetNow() - time_delay\<close>.\<close>

definition query_time :: "TelescopeTcp \<Rightarrow> 64 word \<Rightarrow> 64 word" where
  "query_time s now = now - scast (time_delay s)"

text \<open>The local receipt times of the pair bracket \<open>q\<close>.\<close>

definition brackets :: "Position \<Rightarrow> Position \<Rightarrow> 64 word \<Rightarrow> bool" where
  "brackets older newer q =
     (sint (client_micros older) \<le> sint q \<and> sint q \<le> sint (client_micros newer))"

text \<open>
  A client as the constructor leaves it for the parameters \<^verbatim>\<open>127.0.0.1:10001:500000\<close>:
  no socket, empty buffers, no sample. The examples below start from it.
\<close>

definition fresh_client :: TelescopeTcp where
  "fresh_client =
     \<lparr>name = ''Scope1'',
      address = \<lparr>sin_family = 2, sin_port = htons 10001, sin_addr = [127, 0, 0, 1]\<rparr>,
      fd = - 1, wait_for_connection_establishment = False,
      end_of_timeout = - 0x8000000000000000,
      read_buff = replicate 120 0, read_buff_end = 0,
      write_buff = replicate 120 0, write_buff_end = 0,
      time_delay = 500000,
      positions = (\<lambda>_. unset_position), position_pointer = 0\<rparr>"

text \<open>
  The history after the samples of a list have been stored in order, each given as
  (right ascension, local receipt time); declination, server time and status are 0.
\<close>

fun store_all :: "TelescopeTcp \<Rightarrow> (32 word \<times> 64 word) list \<Rightarrow> TelescopeTcp" where
  "store_all s [] = s"
| "store_all s ((ra_int, t) # xs) = store_all (store_position s 0 ra_int 0 0 t) xs"

text \<open>
  Twenty samples received at the local times 1 to 20. All point to right ascension 0,
  direction \<open>(1, 0, 0)\<close>, except the fifth, the oldest one that a ring of sixteen still
  holds, at a quarter turn, direction \<open>(0, 1, 0)\<close>, and the twentieth, the newest, at half a
  turn, direction \<open>(-1, 0, 0)\<close>.
\<close>

definition twenty_samples :: "(32 word \<times> 64 word) list" where
  "twenty_samples =
     [(0, 1), (0, 2), (0, 3), (0, 4), (0x40000000, 5), (0, 6), (0, 7), (0, 8), (0, 9), (0, 10),
      (0, 11), (0, 12), (0, 13), (0, 14), (0, 15), (0, 16), (0, 17), (0, 18), (0, 19),
      (0x80000000, 20)]"

text \<open>
  The connection state of the spec. The source has no such field: the state is read off
  the socket and the flag \<^verbatim>\<open>wait_for_connection_establishment\<close>, as \<^verbatim>\<open>isConnected\<close> does.
\<close>

datatype ConnectionState = Disconnected | Connecting | Connected

definition connection_state :: "TelescopeTcp \<Rightarrow> ConnectionState" where
  "connection_state s =
     (if IS_INVALID_SOCKET (fd s) then Disconnected
      else if wait_for_connection_establishment s then Connecting
      else Connected)"

text \<open>System calls that open socket 3 and leave the connect pending, or finish it at once.\<close>

definition in_progress :: connect_calls where
  "in_progress =
     \<lparr>socket_fd = 3, nonblocking_rc = 0, connect_rc = - 1, connect_errno = EINPROGRESS\<rparr>"

definition at_once :: connect_calls where
  "at_once =
     \<lparr>socket_fd = 3, nonblocking_rc = 0, connect_rc = 0, connect_errno = EINPROGRESS\<rparr>"

text \<open>The fresh client after its first tick at time 0, with the connect pending or done.\<close>

definition connecting_client :: TelescopeTcp where
  "connecting_client = fst (prepareSelectFds fresh_client 0 in_progress ({}, {}, 0))"

definition connected_client :: TelescopeTcp where
  "connected_client = fst (prepareSelectFds fresh_client 0 at_once ({}, {}, 0))"

text \<open>System calls of a tick on which the peer has closed: \<^verbatim>\<open>recv\<close> would return 0.\<close>

definition peer_closed :: ready_calls where
  "peer_closed =
     \<lparr>getsockopt_rc = 0, so_error = 0, send_returns = SendDone 0,
      recv_returns = RecvBytes [], clock_returns = (\<lambda>_. 0)\<rparr>"

text \<open>A resolver that knows the loopback address only.\<close>

definition loopback_only :: "string \<Rightarrow> hostent option" where
  "loopback_only host =
     (if host = ''127.0.0.1'' then Some \<lparr>h_length = 4, h_addr = [127, 0, 0, 1]\<rparr> else None)"

text \<open>
  The descriptor grammar, stated by concatenation. The parameters of a TCP telescope are
  \<open>HOST:PORT:DELAY\<close>, with \<open>PORT\<close> and \<open>DELAY\<close> non-empty strings of digits whose values
  lie in \<open>[1, 65535]\<close> and \<open>[1, 10000000]\<close>, and with a host that \<^verbatim>\<open>gethostbyname\<close> resolves
  to an address of four bytes.
\<close>

definition tcp_params_accepted :: "(string \<Rightarrow> hostent option) \<Rightarrow> string \<Rightarrow> bool" where
  "tcp_params_accepted gethostbyname params =
     (\<exists>host port delay hep.
        params = host @ '':'' @ port @ '':'' @ delay
      \<and> CHR '':'' \<notin> set host
      \<and> port \<noteq> [] \<and> list_all is_digit port \<and> delay \<noteq> [] \<and> list_all is_digit delay
      \<and> 1 \<le> decimal port \<and> decimal port \<le> 65535
      \<and> 1 \<le> decimal delay \<and> decimal delay \<le> 10000000
      \<and> gethostbyname (trimmed host) = Some hep \<and> h_length hep = 4)"

text \<open>
  A descriptor is \<open>NAME:TYPE\<close> or \<open>NAME:TYPE:PARAMS\<close>, no colon in \<open>NAME\<close> and \<open>TYPE\<close>;
  white space around each part is ignored; \<open>TYPE\<close> is \<^verbatim>\<open>Dummy\<close>, with any parameters, or
  \<^verbatim>\<open>TCP\<close>, with parameters as above.
\<close>

definition descriptor_accepted :: "(string \<Rightarrow> hostent option) \<Rightarrow> string \<Rightarrow> bool" where
  "descriptor_accepted gethostbyname url =
     (\<exists>nm type params.
        (url = nm @ '':'' @ type \<and> params = [] \<or> url = nm @ '':'' @ type @ '':'' @ params)
      \<and> CHR '':'' \<notin> set nm \<and> CHR '':'' \<notin> set type
      \<and> (trimmed type = ''Dummy''
         \<or> trimmed type = ''TCP'' \<and> tcp_params_accepted gethostbyname (trimmed params)))"

text \<open>
  The inbound protocol as the amended claim C3 words it, on the plain sequence of buffered
  bytes: the result of one pass of the parser is either a forced disconnect, or the
  position frames it accepted, in order, and the bytes it left for the next read.
\<close>

datatype parse_outcome = Disconnect | Wait "byte list list" "byte list"

text \<open>The two 16-bit header fields of the frame at the head of the bytes, by arithmetic.\<close>

definition frame_length :: "byte list \<Rightarrow> nat" where
  "frame_length bs = unat (bs ! 0) + 256 * unat (bs ! 1)"

definition frame_type :: "byte list \<Rightarrow> nat" where
  "frame_type bs = unat (bs ! 2) + 256 * unat (bs ! 3)"

function frames :: "byte list \<Rightarrow> parse_outcome" where
  "frames bs =
     (if length bs < 2 then Wait [] bs
      else if frame_length bs < 4 \<or> 120 < frame_length bs then Disconnect
      else if length bs < frame_length bs then Wait [] bs
      else if frame_type bs = 0 then
        (if frame_length bs < 24 then Disconnect
         else (case frames (drop (frame_length bs) bs) of
                 Disconnect \<Rightarrow> Disconnect
               | Wait fs rest \<Rightarrow> Wait (take (frame_length bs) bs # fs) rest))
      else frames (drop (frame_length bs) bs))"
  by pat_completeness auto
termination
  by (relation "measure length") auto

declare frames.simps [simp del]

text \<open>Storing an accepted position frame, and a list of them, with the clock running on.\<close>

definition store_frame :: "TelescopeTcp \<Rightarrow> byte list \<Rightarrow> 64 word \<Rightarrow> TelescopeTcp" where
  "store_frame s f now =
     store_position s (le64 (take 8 (drop 4 f)))
       (le32 (f ! 12) (f ! 13) (f ! 14) (f ! 15))
       (le32 (f ! 16) (f ! 17) (f ! 18) (f ! 19))
       (le32 (f ! 20) (f ! 21) (f ! 22) (f ! 23)) now"

fun store_frames :: "(nat \<Rightarrow> 64 word) \<Rightarrow> nat \<Rightarrow> TelescopeTcp \<Rightarrow> byte list list \<Rightarrow> TelescopeTcp" where
  "store_frames clock n s [] = s"
| "store_frames clock n s (f # fs) = store_frames clock (Suc n) (store_frame s f (clock n)) fs"

text \<open>The bytes in the read buffer: the array up to \<^verbatim>\<open>read_buff_end\<close>.\<close>

definition inbound :: "TelescopeTcp \<Rightarrow> byte list" where
  "inbound s = take (read_buff_end s) (read_buff s)"

text \<open>
  Two samples in the history of the fresh client: direction \<open>(1, 0, 0)\<close> received at time
  0 and direction \<open>(0, 1, 0)\<close> received at time 10.
\<close>

definition two_samples :: TelescopeTcp where
  "two_samples =
     fresh_client\<lparr>position_pointer := 2,
        positions := (\<lambda>_. unset_position)
          (1 := \<lparr>server_micros = 0, client_micros = 0, pos = Vec3d 1 0 0, status = 0\<rparr>,
           2 := \<lparr>server_micros = 10, client_micros = 10, pos = Vec3d 0 1 0, status = 0\<rparr>)\<rparr>"

text \<open>
  Two position frames received at the times 0 and 10: right ascension 0, and right ascension
  half a turn plus one unit of the 32-bit scale, so the two directions are opposite up to
  an angle of \<open>pi / 2^31\<close>.
\<close>

definition near_antipodal :: TelescopeTcp where
  "near_antipodal = store_all (hangup fresh_client) [(0, 0), (0x80000001, 10)]"

text \<open>
  \<open>opened_at t0 s\<close>: the client \<open>s\<close> holds a socket that the connect attempt of the tick at
  time \<open>t0\<close> opened, and has kept it through any number of later ticks, readiness
  notifications and goto requests.
\<close>

inductive opened_at :: "64 word \<Rightarrow> TelescopeTcp \<Rightarrow> bool" where
  attempt:
    "IS_INVALID_SOCKET (fd s) \<Longrightarrow> \<not> sint t0 < sint (end_of_timeout s) \<Longrightarrow>
     s' = fst (prepareSelectFds s t0 sys fds) \<Longrightarrow> \<not> IS_INVALID_SOCKET (fd s') \<Longrightarrow>
     opened_at t0 s'"
| tick:
    "opened_at t0 s \<Longrightarrow> s' = fst (prepareSelectFds s now sys fds) \<Longrightarrow>
     \<not> IS_INVALID_SOCKET (fd s') \<Longrightarrow> opened_at t0 s'"
| ready:
    "opened_at t0 s \<Longrightarrow> s' = handleSelectFds s read_fds write_fds calls \<Longrightarrow>
     \<not> IS_INVALID_SOCKET (fd s') \<Longrightarrow> opened_at t0 s'"
| goto:
    "opened_at t0 s \<Longrightarrow> s' = telescopeGoto s j2000_pos now \<Longrightarrow> opened_at t0 s'"

section \<open>The position query\<close>

lemma scan_positions_skip:
  assumes "client_micros (positions s (p - 1)) \<noteq> unset_micros"
    and "\<not> (sint (client_micros (positions s (p - 1))) \<le> sint q
            \<and> sint q \<le> sint (client_micros (positions s p)))"
    and "p - 1 \<noteq> position_pointer s"
  shows "scan_positions s q p = scan_positions s q (p - 1)"
  using assms by (subst scan_positions.simps) (auto simp add: prev_position_minus Let_def)

lemma scan_positions_hit:
  assumes "client_micros (positions s (p - 1)) \<noteq> unset_micros"
    and "sint (client_micros (positions s (p - 1))) \<le> sint q"
    and "sint q \<le> sint (client_micros (positions s p))"
    and "client_micros (positions s (p - 1)) \<noteq> client_micros (positions s p)"
  shows "scan_positions s q p =
    (if lengthSquared (blend (positions s (p - 1)) (positions s p) q) > 0
     then vec_scale (blend (positions s (p - 1)) (positions s p) q)
            (1 / sqrt (lengthSquared (blend (positions s (p - 1)) (positions s p) q)))
     else pos (positions s p))"
  using assms by (subst scan_positions.simps) (simp add: prev_position_minus Let_def)

lemma slot_index_nonzero:
  assumes "0 < j" and "j < 16"
  shows "(of_nat j :: 4 word) \<noteq> 0"
proof -
  have "unat (of_nat j :: 4 word) = j" using assms by (simp add: unat_of_nat)
  then show ?thesis using assms(1) by (metis unat_0 less_numeral_extra(3))
qed

text \<open>As long as the older slot is set and the pair does not bracket, the scan moves on.\<close>

lemma scan_positions_reach:
  assumes "k < 16"
    and "\<forall>j<k. client_micros (positions s (position_pointer s - of_nat j - 1)) \<noteq> unset_micros"
    and "\<forall>j<k. \<not> (sint (client_micros (positions s (position_pointer s - of_nat j - 1))) \<le> sint q
                \<and> sint q \<le> sint (client_micros (positions s (position_pointer s - of_nat j))))"
  shows "scan_positions s q (position_pointer s)
       = scan_positions s q (position_pointer s - of_nat k)"
  using assms
proof (induction k)
  case 0
  then show ?case by simp
next
  case (Suc k)
  have "(of_nat (Suc k) :: 4 word) \<noteq> 0"
    using Suc.prems(1) by (intro slot_index_nonzero) simp_all
  then have ne: "position_pointer s - of_nat k - 1 \<noteq> position_pointer s"
    by (simp add: algebra_simps)
  have "scan_positions s q (position_pointer s)
      = scan_positions s q (position_pointer s - of_nat k)"
    using Suc by simp
  also have "\<dots> = scan_positions s q (position_pointer s - of_nat k - 1)"
    using Suc.prems ne by (intro scan_positions_skip) simp_all
  finally show ?case by (simp add: algebra_simps)
qed

lemma lengthSquared_scale: "lengthSquared (vec_scale v k) = lengthSquared v * k * k"
  by (cases v) (simp add: algebra_simps)

lemma unit_after_scale:
  assumes "lengthSquared v > 0"
  shows "lengthSquared (vec_scale v (1 / sqrt (lengthSquared v))) = 1"
proof -
  have "sqrt (lengthSquared v) * sqrt (lengthSquared v) = lengthSquared v"
    using assms by simp
  then show ?thesis using assms by (simp add: lengthSquared_scale field_simps)
qed

lemma dot_scale: "vec_dot (vec_scale v k) w = vec_dot v w * k"
  by (cases v; cases w) (simp add: algebra_simps)

lemma dot_equal_weights:
  assumes "lengthSquared a = lengthSquared b"
  shows "vec_dot (vec_add (vec_scale b w) (vec_scale a w)) a
       = vec_dot (vec_add (vec_scale b w) (vec_scale a w)) b"
proof -
  obtain a1 a2 a3 where a: "a = Vec3d a1 a2 a3" by (cases a)
  obtain b1 b2 b3 where b: "b = Vec3d b1 b2 b3" by (cases b)
  have h: "a1 * a1 + a2 * a2 + a3 * a3 = b1 * b1 + b2 * b2 + b3 * b3"
    using assms by (simp add: a b)
  have "(b1 * w + a1 * w) * a1 + (b2 * w + a2 * w) * a2 + (b3 * w + a3 * w) * a3
      = w * (a1 * b1 + a2 * b2 + a3 * b3) + w * (a1 * a1 + a2 * a2 + a3 * a3)"
    by (simp add: algebra_simps)
  also have "\<dots> = w * (a1 * b1 + a2 * b2 + a3 * b3) + w * (b1 * b1 + b2 * b2 + b3 * b3)"
    by (simp only: h)
  also have "\<dots> = (b1 * w + a1 * w) * b1 + (b2 * w + a2 * w) * b2 + (b3 * w + a3 * w) * b3"
    by (simp add: algebra_simps)
  finally show ?thesis by (simp add: a b)
qed

lemma lengthSquared_nonneg: "0 \<le> lengthSquared v"
  by (cases v) simp

lemma lengthSquared_pos_iff: "0 < lengthSquared v \<longleftrightarrow> v \<noteq> Vec3d 0 0 0"
proof (cases v)
  case (Vec3d a b c)
  have "a * a + b * b + c * c = 0 \<longleftrightarrow> a = 0 \<and> b = 0 \<and> c = 0"
    by (simp add: add_nonneg_eq_0_iff)
  moreover have "0 \<le> a * a + b * b + c * c" by simp
  ultimately show ?thesis using Vec3d by (auto simp add: less_le)
qed

lemma getObsJ2000Pos_first_bracket:
  assumes known: "hasKnownPosition s"
    and k: "k < 16"
    and filled: "\<forall>j\<le>k. client_micros (sample_back s (Suc j)) \<noteq> unset_micros"
    and first: "\<forall>j<k. \<not> brackets (sample_back s (Suc j)) (sample_back s j) (query_time s now)"
    and br: "brackets (sample_back s (Suc k)) (sample_back s k) (query_time s now)"
    and diff: "client_micros (sample_back s (Suc k)) \<noteq> client_micros (sample_back s k)"
  shows "getObsJ2000Pos s now =
     (if 0 < lengthSquared (blend (sample_back s (Suc k)) (sample_back s k) (query_time s now))
      then vec_scale (blend (sample_back s (Suc k)) (sample_back s k) (query_time s now))
             (1 / sqrt (lengthSquared
                (blend (sample_back s (Suc k)) (sample_back s k) (query_time s now))))
      else pos (sample_back s k))"
proof -
  define q where "q = query_time s now"
  have sb: "\<And>j. sample_back s (Suc j) = positions s (position_pointer s - of_nat j - 1)"
    by (simp add: sample_back_def algebra_simps)
  have "getObsJ2000Pos s now = scan_positions s q (position_pointer s)"
    using known by (simp add: getObsJ2000Pos_def hasKnownPosition_def q_def query_time_def)
  also have "\<dots> = scan_positions s q (position_pointer s - of_nat k)"
  proof (rule scan_positions_reach [OF k])
    show "\<forall>j<k. client_micros (positions s (position_pointer s - of_nat j - 1)) \<noteq> unset_micros"
      using filled by (simp add: sb)
    show "\<forall>j<k. \<not> (sint (client_micros (positions s (position_pointer s - of_nat j - 1))) \<le> sint q
                \<and> sint q \<le> sint (client_micros (positions s (position_pointer s - of_nat j))))"
      using first by (simp add: brackets_def sb q_def) (simp add: sample_back_def)
  qed
  also have "\<dots> = (if 0 < lengthSquared (blend (sample_back s (Suc k)) (sample_back s k) q)
       then vec_scale (blend (sample_back s (Suc k)) (sample_back s k) q)
              (1 / sqrt (lengthSquared (blend (sample_back s (Suc k)) (sample_back s k) q)))
       else pos (sample_back s k))"
    unfolding sb
    unfolding sample_back_def
  proof (rule scan_positions_hit)
    show "client_micros (positions s (position_pointer s - of_nat k - 1)) \<noteq> unset_micros"
      using filled sb by simp
    show "sint (client_micros (positions s (position_pointer s - of_nat k - 1))) \<le> sint q"
      using br by (simp add: brackets_def sb q_def)
    show "sint q \<le> sint (client_micros (positions s (position_pointer s - of_nat k)))"
      using br by (simp add: brackets_def q_def sample_back_def)
    show "client_micros (positions s (position_pointer s - of_nat k - 1))
        \<noteq> client_micros (positions s (position_pointer s - of_nat k))"
      using diff by (simp add: sb) (simp add: sample_back_def)
  qed
  finally show ?thesis by (simp add: q_def)
qed

lemma sint_diff_nonneg:
  fixes a b :: "64 word"
  assumes "0 \<le> sint a" and "sint a \<le> sint b"
  shows "sint (b - a) = sint b - sint a"
proof -
  have "sint b < 2 ^ 63" using sint_lt [of b] by simp
  then have "- (2 ^ 63) \<le> sint b - sint a" "sint b - sint a < 2 ^ 63"
    using assms by linarith+
  then have "signed_take_bit 63 (sint b - sint a) = sint b - sint a"
    by (rule signed_take_bit_int_eq_self)
  then show ?thesis by (simp add: sint_word_ariths)
qed

lemma near_antipodal_samples:
  "sample_back near_antipodal 0
     = \<lparr>server_micros = 0, client_micros = 10,
        pos = Vec3d (cos (2147483649 * pi / 2147483648)) (sin (2147483649 * pi / 2147483648)) 0,
        status = 0\<rparr>"
  "sample_back near_antipodal (Suc 0)
     = \<lparr>server_micros = 0, client_micros = 0, pos = Vec3d 1 0 0, status = 0\<rparr>"
  "query_time near_antipodal 500005 = 5"
  "hasKnownPosition near_antipodal"
  by (simp_all add: sample_back_def query_time_def hasKnownPosition_def near_antipodal_def
      store_position_def next_position_def hangup_def Let_def fresh_client_def unset_micros_def)

lemma half_turn_and_a_step:
  "cos (2147483649 * pi / 2147483648) = - cos (pi / 2147483648)"
  "sin (2147483649 * pi / 2147483648) = - sin (pi / 2147483648)"
proof -
  have eq: "2147483649 * pi / 2147483648 = pi / 2147483648 + pi" by simp
  show "cos (2147483649 * pi / 2147483648) = - cos (pi / 2147483648)"
    unfolding eq by (rule cos_periodic_pi)
  show "sin (2147483649 * pi / 2147483648) = - sin (pi / 2147483648)"
    unfolding eq by (rule sin_periodic_pi)
qed

lemma small_step:
  defines "d \<equiv> pi / 2147483648"
  shows "0 < sin d" "sin d \<le> d" "0 < cos d" "cos d \<le> 1" "d < 1 / 536870912" "0 < d"
proof -
  show d0: "0 < d" by (simp add: d_def)
  have "pi / 2147483648 < 4 / 2147483648" using pi_less_4 by (simp add: divide_strict_right_mono)
  then show d1: "d < 1 / 536870912" by (simp add: d_def)
  have dpi: "d < pi / 2"
    using pi_gt_zero by (simp add: d_def)
  then have "d < pi" using pi_gt_zero by linarith
  then show "0 < sin d" using d0 by (intro sin_gt_zero)
  show "sin d \<le> d" using d0 by (intro sin_x_le_x) simp
  show "0 < cos d" using d0 dpi by (intro cos_gt_zero)
  show "cos d \<le> 1" by simp
qed

text \<open>
  Claim C1 as stated fails in its fallback. Of the two received samples of
  \<open>near_antipodal\<close> the older, from time 0, points to \<open>(1, 0, 0)\<close> and the newer, from
  time 10, almost opposite. At the query time 5 the blend of the claim has a squared
  length below \<open>10^-15\<close>, a length below \<open>4 * 10^-8\<close>, next to the weights 5 and 5: it
  is near zero. It is not exactly zero, the test \<^verbatim>\<open>f > 0.0\<close> succeeds, and the result is the
  normalised blend, not the newer sample's direction.
\<close>

theorem getObsJ2000Pos_tiny_blend_counterexample:
  "query_time near_antipodal 500005 = 5
   \<and> client_micros (sample_back near_antipodal 1) = 0
   \<and> client_micros (sample_back near_antipodal 0) = 10
   \<and> lengthSquared (vec_add (vec_scale (pos (sample_back near_antipodal 0)) 5)
                              (vec_scale (pos (sample_back near_antipodal 1)) 5)) < 1 / 10 ^ 15
   \<and> getObsJ2000Pos near_antipodal 500005 \<noteq> pos (sample_back near_antipodal 0)"
proof -
  define c where "c = cos (pi / 2147483648)"
  define s where "s = sin (pi / 2147483648)"
  define d where "d = pi / 2147483648"
  have s0: "0 < s" and sd: "s \<le> d" and c0: "0 < c" and c1: "c \<le> 1"
    and d1: "d < 1 / 536870912" and d0: "0 < d"
    using small_step by (simp_all add: c_def s_def d_def)
  have newer: "pos (sample_back near_antipodal 0) = Vec3d (- c) (- s) 0"
    by (simp add: near_antipodal_samples half_turn_and_a_step c_def s_def)
  have older: "pos (sample_back near_antipodal (Suc 0)) = Vec3d 1 0 0"
    by (simp add: near_antipodal_samples)
  define b where "b = Vec3d (5 - 5 * c) (- (5 * s)) 0"
  have sum: "vec_add (vec_scale (pos (sample_back near_antipodal 0)) 5)
                     (vec_scale (pos (sample_back near_antipodal (Suc 0))) 5) = b"
    by (simp add: newer older b_def)
  have bl: "blend (sample_back near_antipodal (Suc 0)) (sample_back near_antipodal 0)
              (query_time near_antipodal 500005) = b"
    unfolding blend_def using sum by (simp add: near_antipodal_samples)
  define f where "f = lengthSquared b"
  have f: "f = (5 - 5 * c) * (5 - 5 * c) + (5 * s) * (5 * s)"
    by (simp add: f_def b_def)
  have fpos: "0 < f"
  proof -
    have "0 < (5 * s) * (5 * s)" using s0 by simp
    moreover have "0 \<le> (5 - 5 * c) * (5 - 5 * c)" by simp
    ultimately show ?thesis unfolding f by linarith
  qed
  have fsmall: "f < 1 / 10 ^ 15"
  proof -
    have pyth: "s * s + c * c = 1"
      using sin_cos_squared_add [of "pi / 2147483648"]
      by (simp only: power2_eq_square s_def c_def)
    have "0 \<le> c * (1 - c)" using c0 c1 by (intro mult_nonneg_nonneg) simp_all
    then have "(1 - c) * (1 - c) \<le> s * s"
      using pyth by (simp add: algebra_simps)
    then have "f \<le> 50 * (s * s)" unfolding f by (simp add: algebra_simps)
    also have "s * s \<le> d * d" using s0 sd by (intro mult_mono) simp_all
    also have "d * d < (1 / 536870912) * (1 / 536870912)"
      using d0 d1 by (intro mult_strict_mono) simp_all
    finally have "f < 50 * ((1 / 536870912) * (1 / 536870912))" by simp
    also have "\<dots> < 1 / 10 ^ 15" by simp
    finally show ?thesis .
  qed
  have res: "getObsJ2000Pos near_antipodal 500005 = vec_scale b (1 / sqrt f)"
  proof -
    have "getObsJ2000Pos near_antipodal 500005 =
       (if 0 < lengthSquared (blend (sample_back near_antipodal (Suc 0))
                 (sample_back near_antipodal 0) (query_time near_antipodal 500005))
        then vec_scale (blend (sample_back near_antipodal (Suc 0))
                 (sample_back near_antipodal 0) (query_time near_antipodal 500005))
               (1 / sqrt (lengthSquared (blend (sample_back near_antipodal (Suc 0))
                 (sample_back near_antipodal 0) (query_time near_antipodal 500005))))
        else pos (sample_back near_antipodal 0))"
      by (rule getObsJ2000Pos_first_bracket)
         (simp_all add: near_antipodal_samples brackets_def unset_micros_def)
    then show ?thesis unfolding bl using fpos by (simp add: f_def)
  qed
  have ne: "vec_scale b (1 / sqrt f) \<noteq> Vec3d (- c) (- s) 0"
  proof
    assume "vec_scale b (1 / sqrt f) = Vec3d (- c) (- s) 0"
    then have "(5 - 5 * c) * (1 / sqrt f) = - c" by (simp add: b_def)
    moreover have "0 \<le> (5 - 5 * c) * (1 / sqrt f)"
      using c1 fpos by (intro mult_nonneg_nonneg) simp_all
    ultimately show False using c0 by linarith
  qed
  have "lengthSquared (vec_add (vec_scale (pos (sample_back near_antipodal 0)) 5)
                              (vec_scale (pos (sample_back near_antipodal 1)) 5)) < 1 / 10 ^ 15"
    using fsmall sum by (simp add: f_def)
  moreover have "getObsJ2000Pos near_antipodal 500005 \<noteq> pos (sample_back near_antipodal 0)"
    unfolding res newer by (rule ne)
  ultimately show ?thesis
    by (simp add: near_antipodal_samples)
qed

text \<open>
  Claim C1, amended. Let a sample be known, and let the pair \<open>k\<close> steps behind the newest
  sample be the first one met by the backward scan whose receipt times bracket the query
  time \<open>Q = now - time_delay\<close>, every older slot up to there holding a sample, and let the
  two receipt times differ. Let \<open>b\<close> be \<open>newer.pos * (Q - older.t) + older.pos * (newer.t - Q)\<close>,
  the differences taken in 64 bits. If \<open>b\<close> is not the zero vector, however small,
  \<^verbatim>\<open>getObsJ2000Pos\<close> returns \<open>b\<close> scaled to length 1; if in addition the two weights are
  equal, as for a query midway, and the two directions have the same length, the result
  has the same scalar product with both, so it is at the same angle from each. Only if
  \<open>b\<close> is exactly the zero vector is the newer sample's direction returned. For receipt
  times that are not negative the 64-bit differences are the true differences.
\<close>

theorem getObsJ2000Pos_interpolates:
  assumes known: "hasKnownPosition s"
    and k: "k < 16"
    and filled: "\<forall>j\<le>k. client_micros (sample_back s (Suc j)) \<noteq> unset_micros"
    and first: "\<forall>j<k. \<not> brackets (sample_back s (Suc j)) (sample_back s j) (query_time s now)"
    and br: "brackets (sample_back s (Suc k)) (sample_back s k) (query_time s now)"
    and diff: "client_micros (sample_back s (Suc k)) \<noteq> client_micros (sample_back s k)"
    and older: "older = sample_back s (Suc k)"
    and newer: "newer = sample_back s k"
    and q: "q = query_time s now"
    and w_newer: "w_newer = real_of_int (sint (q - client_micros older))"
    and w_older: "w_older = real_of_int (sint (client_micros newer - q))"
    and b: "b = vec_add (vec_scale (pos newer) w_newer) (vec_scale (pos older) w_older)"
  shows "(b \<noteq> Vec3d 0 0 0 \<longrightarrow>
            getObsJ2000Pos s now = vec_scale b (1 / sqrt (lengthSquared b))
          \<and> lengthSquared (getObsJ2000Pos s now) = 1
          \<and> (w_newer = w_older \<and> lengthSquared (pos older) = lengthSquared (pos newer)
              \<longrightarrow> vec_dot (getObsJ2000Pos s now) (pos older)
                  = vec_dot (getObsJ2000Pos s now) (pos newer)))
       \<and> (b = Vec3d 0 0 0 \<longrightarrow> getObsJ2000Pos s now = pos newer)
       \<and> (0 \<le> sint (client_micros older) \<longrightarrow>
            w_newer = real_of_int (sint q - sint (client_micros older))
          \<and> w_older = real_of_int (sint (client_micros newer) - sint q))"
proof -
  have bl: "blend (sample_back s (Suc k)) (sample_back s k) (query_time s now) = b"
    by (simp add: blend_def b w_newer w_older older newer q)
  have res: "getObsJ2000Pos s now =
      (if 0 < lengthSquared b then vec_scale b (1 / sqrt (lengthSquared b)) else pos newer)"
    using getObsJ2000Pos_first_bracket [OF known k filled first br diff]
    unfolding bl by (simp add: newer)
  have unit: "lengthSquared (vec_scale b (1 / sqrt (lengthSquared b))) = 1" if "b \<noteq> Vec3d 0 0 0"
    using that by (intro unit_after_scale) (simp add: lengthSquared_pos_iff)
  have mid: "vec_dot (vec_scale b (1 / sqrt (lengthSquared b))) (pos older)
           = vec_dot (vec_scale b (1 / sqrt (lengthSquared b))) (pos newer)"
    if "w_newer = w_older" and "lengthSquared (pos older) = lengthSquared (pos newer)"
    using that dot_equal_weights [of "pos older" "pos newer" w_older]
    by (simp add: dot_scale b)
  have t: "w_newer = real_of_int (sint q - sint (client_micros older))
          \<and> w_older = real_of_int (sint (client_micros newer) - sint q)"
    if nn: "0 \<le> sint (client_micros older)"
  proof -
    have le: "sint (client_micros older) \<le> sint q" "sint q \<le> sint (client_micros newer)"
      using br by (simp_all add: brackets_def older newer q)
    have "sint (q - client_micros older) = sint q - sint (client_micros older)"
      using nn le(1) by (rule sint_diff_nonneg)
    moreover have "sint (client_micros newer - q) = sint (client_micros newer) - sint q"
      using nn le by (intro sint_diff_nonneg) simp_all
    ultimately show ?thesis by (simp add: w_newer w_older)
  qed
  show ?thesis
    using res unit mid t by (simp add: lengthSquared_pos_iff)
qed

text \<open>
  Samples at the times 0 and 10 and a query for the time 3, with the delay 500000 of the
  constructed client: the newer direction gets the weight 3, the older the weight 7.
\<close>

theorem getObsJ2000Pos_interpolates_witness:
  "getObsJ2000Pos two_samples 500003 = vec_scale (Vec3d 7 3 0) (1 / sqrt 58)"
proof -
  have older: "\<lparr>server_micros = 0, client_micros = 0, pos = Vec3d 1 0 0, status = 0\<rparr>
      = sample_back two_samples (Suc 0)"
    and newer: "\<lparr>server_micros = 10, client_micros = 10, pos = Vec3d 0 1 0, status = 0\<rparr>
      = sample_back two_samples 0"
    by (simp_all add: sample_back_def two_samples_def)
  have q: "(3 :: 64 word) = query_time two_samples 500003"
    by (simp add: query_time_def two_samples_def fresh_client_def)
  have known: "hasKnownPosition two_samples"
    by (simp add: hasKnownPosition_def two_samples_def unset_micros_def)
  have filled: "\<forall>j\<le>0. client_micros (sample_back two_samples (Suc j)) \<noteq> unset_micros"
    by (simp add: older [symmetric] unset_micros_def)
  have first: "\<forall>j<(0::nat). \<not> brackets (sample_back two_samples (Suc j)) (sample_back two_samples j)
      (query_time two_samples 500003)"
    by simp
  have br: "brackets (sample_back two_samples (Suc 0)) (sample_back two_samples 0)
      (query_time two_samples 500003)"
    by (simp add: older [symmetric] newer [symmetric] q [symmetric] brackets_def)
  have diff: "client_micros (sample_back two_samples (Suc 0)) \<noteq> client_micros (sample_back two_samples 0)"
    by (simp add: older [symmetric] newer [symmetric])
  have wn: "(3 :: real) = real_of_int (sint ((3 :: 64 word)
      - client_micros \<lparr>server_micros = 0, client_micros = 0, pos = Vec3d 1 0 0, status = 0\<rparr>))"
    by simp
  have wo: "(7 :: real) = real_of_int (sint (client_micros
      \<lparr>server_micros = 10, client_micros = 10, pos = Vec3d 0 1 0, status = 0\<rparr> - (3 :: 64 word)))"
    by simp
  have b: "Vec3d 7 3 0
      = vec_add (vec_scale (pos \<lparr>server_micros = 10, client_micros = 10, pos = Vec3d 0 1 0, status = 0\<rparr>) 3)
                (vec_scale (pos \<lparr>server_micros = 0, client_micros = 0, pos = Vec3d 1 0 0, status = 0\<rparr>) 7)"
    by simp
  have k: "(0::nat) < 16" by simp
  have ne: "Vec3d 7 3 0 \<noteq> Vec3d 0 0 0" by simp
  have ls: "lengthSquared (Vec3d 7 3 0) = 58" by simp
  show ?thesis
    using getObsJ2000Pos_interpolates [OF known k filled first br diff older newer q wn wo b] ne
    by (simp only: ls) blast
qed

text \<open>
  Claim C10. While the slot under the write cursor still carries the unset time stamp,
  which is the case until the first sample arrives, \<^verbatim>\<open>getObsJ2000Pos\<close> returns the zero
  vector, whose length is 0 and which cannot be normalised, and \<^verbatim>\<open>hasKnownPosition\<close> is
  false.
\<close>

theorem getObsJ2000Pos_unknown_is_zero:
  assumes "client_micros (positions s (position_pointer s)) = unset_micros"
  shows "getObsJ2000Pos s now = Vec3d 0 0 0
       \<and> lengthSquared (getObsJ2000Pos s now) = 0
       \<and> \<not> hasKnownPosition s"
  using assms by (simp add: getObsJ2000Pos_def hasKnownPosition_def)

theorem getObsJ2000Pos_unknown_is_zero_witness:
  "getObsJ2000Pos fresh_client 1000000 = Vec3d 0 0 0 \<and> \<not> hasKnownPosition fresh_client"
  using getObsJ2000Pos_unknown_is_zero [of fresh_client 1000000]
  by (simp add: fresh_client_def unset_position_def)

text \<open>
  When every slot holds a sample and the query time precedes all sixteen receipt times,
  no pair brackets, not even the pair that closes the ring (newest as the older one,
  oldest as the newer one). The loop then ends because \<open>p\<close> is back at
  \<^verbatim>\<open>position_pointer\<close>, and what is returned is the newest sample.
\<close>

lemma getObsJ2000Pos_full_ring_newest:
  assumes known: "hasKnownPosition s"
    and filled: "\<forall>j<16. client_micros (sample_back s j) \<noteq> unset_micros"
    and before: "\<forall>j<16. sint (query_time s now) < sint (client_micros (sample_back s j))"
  shows "getObsJ2000Pos s now = pos (sample_back s 0)"
proof -
  define q where "q = query_time s now"
  have sb: "\<And>j. positions s (position_pointer s - of_nat j - 1) = sample_back s (Suc j)"
    by (simp add: sample_back_def algebra_simps)
  have wrap: "position_pointer s - 15 - 1 = position_pointer s" by simp
  have s0: "positions s (position_pointer s) = sample_back s 0" by (simp add: sample_back_def)
  have "getObsJ2000Pos s now = scan_positions s q (position_pointer s)"
    using known by (simp add: getObsJ2000Pos_def hasKnownPosition_def q_def query_time_def)
  also have "\<dots> = scan_positions s q (position_pointer s - of_nat 15)"
  proof (rule scan_positions_reach)
    show "(15::nat) < 16" by simp
    show "\<forall>j<15. client_micros (positions s (position_pointer s - of_nat j - 1)) \<noteq> unset_micros"
      using filled by (simp add: sb)
    show "\<forall>j<15. \<not> (sint (client_micros (positions s (position_pointer s - of_nat j - 1))) \<le> sint q
                \<and> sint q \<le> sint (client_micros (positions s (position_pointer s - of_nat j))))"
      using before by (auto simp add: sb q_def not_le)
  qed
  also have "\<dots> = pos (positions s (position_pointer s))"
    using filled [rule_format, of 0] before [rule_format, of 0]
    by (subst scan_positions.simps) (simp add: prev_position_minus Let_def wrap s0 q_def)
  finally show ?thesis by (simp add: s0)
qed

text \<open>
  Claim C2, at twenty samples. The ring holds the samples 5 to 20; the oldest one
  retained, fifteen steps behind the newest, was received at time 5 and points to
  \<open>(0, 1, 0)\<close>. A query at \<^verbatim>\<open>GetNow() = 500000\<close> with the delay 500000, so for the time 0
  that precedes every retained sample, returns \<open>(-1, 0, 0)\<close>, the direction of the newest
  sample, and not the direction of the oldest.
\<close>

theorem getObsJ2000Pos_twenty_samples:
  "query_time (store_all (hangup fresh_client) twenty_samples) 500000 = 0
   \<and> client_micros (sample_back (store_all (hangup fresh_client) twenty_samples) 15) = 5
   \<and> pos (sample_back (store_all (hangup fresh_client) twenty_samples) 15) = Vec3d 0 1 0
   \<and> client_micros (sample_back (store_all (hangup fresh_client) twenty_samples) 0) = 20
   \<and> getObsJ2000Pos (store_all (hangup fresh_client) twenty_samples) 500000 = Vec3d (- 1) 0 0"
proof -
  have "query_time (store_all (hangup fresh_client) twenty_samples) 500000 = 0"
    by (simp add: query_time_def twenty_samples_def store_position_def hangup_def Let_def
        fresh_client_def)
  moreover have "client_micros (sample_back (store_all (hangup fresh_client) twenty_samples) 15) = 5"
    by (simp add: sample_back_def twenty_samples_def store_position_def next_position_def
        hangup_def Let_def)
  moreover have "pos (sample_back (store_all (hangup fresh_client) twenty_samples) 15) = Vec3d 0 1 0"
    by (simp add: sample_back_def twenty_samples_def store_position_def next_position_def
        hangup_def Let_def)
  moreover have "client_micros (sample_back (store_all (hangup fresh_client) twenty_samples) 0) = 20"
    by (simp add: sample_back_def twenty_samples_def store_position_def next_position_def
        hangup_def Let_def)
  moreover have "getObsJ2000Pos (store_all (hangup fresh_client) twenty_samples) 500000
      = Vec3d (- 1) 0 0"
    by (simp add: getObsJ2000Pos_def twenty_samples_def store_position_def next_position_def
        hangup_def Let_def fresh_client_def unset_micros_def scan_positions.simps
        prev_position_def)
  ultimately show ?thesis by blast
qed

section \<open>The connection state machine\<close>

lemma connecting_client_eq:
  "connecting_client
     = fresh_client\<lparr>end_of_timeout := 5000000, fd := 3,
         wait_for_connection_establishment := True\<rparr>"
  by (simp add: connecting_client_def prepareSelectFds_def fresh_client_def in_progress_def
      IS_INVALID_SOCKET_def Let_def)

lemma connected_client_eq:
  "connected_client = fresh_client\<lparr>end_of_timeout := 5000000, fd := 3\<rparr>"
  by (simp add: connected_client_def prepareSelectFds_def fresh_client_def at_once_def
      IS_INVALID_SOCKET_def Let_def)

text \<open>
  Claim C5 as stated fails: the connect attempt of the fresh client starts at time 0 and
  stays pending; the tick at time 2000000, two seconds later, leaves it Connecting.
\<close>

theorem connect_timeout_one_second_counterexample:
  "connection_state connecting_client = Connecting
   \<and> connection_state (fst (prepareSelectFds connecting_client 2000000 in_progress ({}, {}, 0)))
       = Connecting"
  by (simp add: connecting_client_eq connection_state_def prepareSelectFds_def fresh_client_def
      IS_INVALID_SOCKET_def Let_def)

text \<open>
  Claim C5, amended. A connect attempt started by the tick at time \<open>t0\<close> and left pending
  puts the client into the Connecting state with the deadline \<open>t0 + 5000000\<close>. The next
  tick, at time \<open>t1\<close>, closes the socket and returns the client to Disconnected exactly when
  \<open>t1\<close> is later than that deadline, five seconds after the start of the attempt, and then
  sets the timer to \<open>t1 + 1000000\<close>; at or before the deadline it changes nothing in the
  client. Times are compared as the code compares them, as signed 64-bit values.
\<close>

theorem connect_attempt_times_out_after_five_seconds:
  assumes idle: "connection_state s = Disconnected"
    and due: "\<not> sint t0 < sint (end_of_timeout s)"
    and sock: "\<not> IS_INVALID_SOCKET (socket_fd sys)" "nonblocking_rc sys = 0"
    and conn: "connect_rc sys \<noteq> 0" "connect_errno sys = EINPROGRESS \<or> connect_errno sys = EAGAIN"
  shows "connection_state (fst (prepareSelectFds s t0 sys fds)) = Connecting
    \<and> (sint (t0 + 5000000) < sint t1 \<longrightarrow>
         connection_state
           (fst (prepareSelectFds (fst (prepareSelectFds s t0 sys fds)) t1 sys1 fds1))
           = Disconnected
         \<and> end_of_timeout
             (fst (prepareSelectFds (fst (prepareSelectFds s t0 sys fds)) t1 sys1 fds1))
           = t1 + 1000000)
    \<and> (\<not> sint (t0 + 5000000) < sint t1 \<longrightarrow>
         fst (prepareSelectFds (fst (prepareSelectFds s t0 sys fds)) t1 sys1 fds1)
           = fst (prepareSelectFds s t0 sys fds))"
proof -
  have inv: "IS_INVALID_SOCKET (fd s)"
    using idle by (simp add: connection_state_def split: if_splits)
  have s1: "fst (prepareSelectFds s t0 sys fds)
      = s\<lparr>end_of_timeout := t0 + 5000000, fd := socket_fd sys,
          wait_for_connection_establishment := True\<rparr>"
    using inv due sock conn by (cases fds) (auto simp add: prepareSelectFds_def Let_def)
  show ?thesis
    unfolding s1 using sock(1)
    by (cases fds1)
       (simp add: prepareSelectFds_def connection_state_def Let_def hangup_def
          IS_INVALID_SOCKET_def INVALID_SOCKET_def)
qed

theorem connect_attempt_times_out_after_five_seconds_witness:
  "connection_state (fst (prepareSelectFds connecting_client 5000001 in_progress ({}, {}, 0)))
     = Disconnected"
proof -
  have idle: "connection_state fresh_client = Disconnected"
    by (simp add: connection_state_def fresh_client_def IS_INVALID_SOCKET_def)
  have due: "\<not> sint (0 :: 64 word) < sint (end_of_timeout fresh_client)"
    by (simp add: fresh_client_def)
  have late: "sint (0 + 5000000 :: 64 word) < sint (5000001 :: 64 word)"
    by simp
  show ?thesis
    using connect_attempt_times_out_after_five_seconds
        [where s = fresh_client and ?t0.0 = 0 and sys = in_progress and ?t1.0 = 5000001
          and fds = "({}, {}, 0)" and ?sys1.0 = in_progress and ?fds1.0 = "({}, {}, 0)",
          OF idle due]
      late
    by (simp add: connecting_client_def in_progress_def IS_INVALID_SOCKET_def)
qed

text \<open>
  Claim C6 as stated fails in its last part: the connection of the fresh client was
  opened by the tick at time 0; the peer closes at time 60000000; the tick one microsecond
  after the disconnect already starts the next connect attempt.
\<close>

theorem reconnect_after_disconnect_counterexample:
  "connection_state connected_client = Connected
   \<and> connection_state (performReading connected_client (RecvBytes []) (\<lambda>_. 60000000))
       = Disconnected
   \<and> connection_state
       (fst (prepareSelectFds
               (performReading connected_client (RecvBytes []) (\<lambda>_. 60000000))
               60000001 in_progress ({}, {}, 0)))
       = Connecting"
  by (simp add: connected_client_eq connection_state_def performReading_def hangup_def
      prepareSelectFds_def fresh_client_def IS_INVALID_SOCKET_def INVALID_SOCKET_def
      in_progress_def Let_def)

text \<open>
  No hook call and no goto request touches the timer of a client that keeps its socket:
  for as long as the socket opened at \<open>t0\<close> is held, the timer stays at \<open>t0 + 5000000\<close>.
\<close>

lemma hangup_invalid: "IS_INVALID_SOCKET (fd (hangup s))"
  by (simp add: hangup_def IS_INVALID_SOCKET_def INVALID_SOCKET_def)

lemma end_of_timeout_hangup: "end_of_timeout (hangup s) = end_of_timeout s"
  by (simp add: hangup_def)

lemma end_of_timeout_store_position:
  "end_of_timeout (store_position s srv ra_int dec_int st now) = end_of_timeout s"
  by (simp add: store_position_def Let_def)

lemma end_of_timeout_parse_packets:
  "end_of_timeout (parse_packets clock s p n) = end_of_timeout s"
proof (induction "read_buff_end s - p" arbitrary: s p n rule: less_induct)
  case less
  show ?case
    by (subst parse_packets.simps)
       (auto simp add: Let_def end_of_timeout_hangup compact_read_buff_def less.hyps
          read_buff_end_store_position end_of_timeout_store_position)
qed

lemma performReading_keeps:
  "end_of_timeout (performReading s r clock) = end_of_timeout s"
  by (cases r) (simp_all add: performReading_def end_of_timeout_hangup end_of_timeout_parse_packets)

lemma performWriting_keeps:
  "end_of_timeout (performWriting s r) = end_of_timeout s"
  by (cases r) (simp_all add: performWriting_def end_of_timeout_hangup Let_def)

lemma handleSelectFds_keeps:
  "end_of_timeout (handleSelectFds s read_fds write_fds calls) = end_of_timeout s"
  by (simp add: handleSelectFds_def Let_def end_of_timeout_hangup performWriting_keeps performReading_keeps)

lemma opened_at_timer:
  "opened_at t0 s \<Longrightarrow> end_of_timeout s = t0 + 5000000 \<and> \<not> IS_INVALID_SOCKET (fd s)"
proof (induction rule: opened_at.induct)
  case (attempt s t0 s' sys fds)
  then show ?case
    by (cases fds) (auto simp add: prepareSelectFds_def Let_def hangup_invalid split: if_splits)
next
  case (tick t0 s s' now sys fds)
  then show ?case
    by (cases fds) (auto simp add: prepareSelectFds_def Let_def hangup_invalid split: if_splits)
next
  case (ready t0 s s' read_fds write_fds calls)
  then show ?case by (simp add: handleSelectFds_keeps)
next
  case (goto t0 s s' j2000_pos now)
  then show ?case by (cases j2000_pos) (simp add: telescopeGoto_def Let_def)
qed

text \<open>
  Claim C6, amended. Let the connection have been opened by the connect attempt of the
  tick at time \<open>t0\<close>. A read of zero bytes on the established connection closes the socket,
  leaves the client Disconnected, empties both byte queues, puts the unset sample into
  every slot, so that the position is no longer known, and leaves the timer at
  \<open>t0 + 5000000\<close>. The next tick does nothing while its time is before \<open>t0 + 5000000\<close>, and
  starts a connect attempt (re-arming the timer to five seconds later) as soon as it is
  not: no sooner than five seconds after the previous connect attempt began, whenever the
  disconnect happened.
\<close>

theorem zero_byte_read_hangs_up:
  assumes opened: "opened_at t0 s" and conn: "connection_state s = Connected"
  shows "connection_state (performReading s (RecvBytes []) clock) = Disconnected
    \<and> fd (performReading s (RecvBytes []) clock) = INVALID_SOCKET
    \<and> read_buff_end (performReading s (RecvBytes []) clock) = 0
    \<and> write_buff_end (performReading s (RecvBytes []) clock) = 0
    \<and> (\<forall>i. positions (performReading s (RecvBytes []) clock) i = unset_position)
    \<and> \<not> hasKnownPosition (performReading s (RecvBytes []) clock)
    \<and> end_of_timeout (performReading s (RecvBytes []) clock) = t0 + 5000000
    \<and> (sint now < sint (t0 + 5000000) \<longrightarrow>
         fst (prepareSelectFds (performReading s (RecvBytes []) clock) now sys fds)
           = performReading s (RecvBytes []) clock)
    \<and> (\<not> sint now < sint (t0 + 5000000) \<longrightarrow>
         end_of_timeout (fst (prepareSelectFds (performReading s (RecvBytes []) clock) now sys fds))
           = now + 5000000)"
proof -
  have t: "end_of_timeout s = t0 + 5000000" using opened_at_timer [OF opened] by simp
  have v: "\<not> IS_INVALID_SOCKET (fd s)"
    using conn by (simp add: connection_state_def split: if_splits)
  have r: "performReading s (RecvBytes []) clock = hangup s"
    by (simp add: performReading_def)
  have h: "hangup s = s\<lparr>fd := INVALID_SOCKET, read_buff_end := 0, write_buff_end := 0,
       wait_for_connection_establishment := False,
       positions := (\<lambda>_. unset_position), position_pointer := 0\<rparr>"
    using v by (simp add: hangup_def)
  show ?thesis
    unfolding r h
    by (cases fds)
       (auto simp add: t connection_state_def IS_INVALID_SOCKET_def INVALID_SOCKET_def
          hasKnownPosition_def unset_position_def prepareSelectFds_def Let_def hangup_def)
qed

theorem zero_byte_read_hangs_up_witness:
  "connection_state (performReading connected_client (RecvBytes []) (\<lambda>_. 60000000)) = Disconnected
   \<and> fst (prepareSelectFds (performReading connected_client (RecvBytes []) (\<lambda>_. 60000000))
        4000000 in_progress ({}, {}, 0))
     = performReading connected_client (RecvBytes []) (\<lambda>_. 60000000)"
proof -
  have o: "opened_at 0 connected_client"
  proof (rule opened_at.attempt)
    show "IS_INVALID_SOCKET (fd fresh_client)" by (simp add: fresh_client_def IS_INVALID_SOCKET_def)
    show "\<not> sint (0 :: 64 word) < sint (end_of_timeout fresh_client)" by (simp add: fresh_client_def)
    show "connected_client = fst (prepareSelectFds fresh_client 0 at_once ({}, {}, 0))"
      by (simp add: connected_client_def)
    show "\<not> IS_INVALID_SOCKET (fd connected_client)"
      by (simp add: connected_client_eq IS_INVALID_SOCKET_def)
  qed
  have c: "connection_state connected_client = Connected"
    by (simp add: connected_client_eq connection_state_def fresh_client_def IS_INVALID_SOCKET_def)
  have early: "sint (4000000 :: 64 word) < sint (0 + 5000000 :: 64 word)"
    by simp
  show ?thesis
    using zero_byte_read_hangs_up [OF o c, of "\<lambda>_. 60000000" 4000000 in_progress "({}, {}, 0)"] early
    by blast
qed

text \<open>
  Claim C9. When the socket of the client is in neither of the two ready sets, in
  particular when both are empty, \<^verbatim>\<open>handleSelectFds\<close> returns the client as it was:
  connection state, history and everything else.
\<close>

theorem handleSelectFds_nothing_ready:
  assumes "fd s \<notin> read_fds" and "fd s \<notin> write_fds"
  shows "handleSelectFds s read_fds write_fds sys = s"
  using assms by (simp add: handleSelectFds_def)

theorem handleSelectFds_nothing_ready_witness:
  "handleSelectFds connected_client {} {} peer_closed = connected_client"
  using handleSelectFds_nothing_ready [of connected_client "{}" "{}" peer_closed] by simp

section \<open>The outbound queue\<close>

text \<open>
  Claim C7. A goto request whose 20 bytes would pass the end of the 120-byte write buffer
  changes nothing: the buffer and its end offset are as before, none of the 20 bytes is
  written, and the call returns normally, as it always does.
\<close>

theorem telescopeGoto_drops_when_full:
  assumes "sizeof_buff < write_buff_end s + 20"
  shows "telescopeGoto s j2000_pos now = s"
  using assms by (simp add: telescopeGoto_def)

theorem telescopeGoto_drops_when_full_witness:
  "telescopeGoto (connected_client\<lparr>write_buff_end := 119\<rparr>) (Vec3d 1 0 0) 7
     = connected_client\<lparr>write_buff_end := 119\<rparr>"
  using telescopeGoto_drops_when_full [of "connected_client\<lparr>write_buff_end := 119\<rparr>" "Vec3d 1 0 0" 7]
  by (simp add: sizeof_buff_def)

section \<open>The factory\<close>

lemma split_colon_Some_iff:
  "split_colon u = Some (a, b) \<longleftrightarrow> u = a @ CHR '':'' # b \<and> CHR '':'' \<notin> set a"
proof
  assume h: "split_colon u = Some (a, b)"
  then have colon: "CHR '':'' \<in> set u"
    and a: "a = takeWhile (\<lambda>c. c \<noteq> CHR '':'') u"
    and b: "b = tl (dropWhile (\<lambda>c. c \<noteq> CHR '':'') u)"
    by (auto simp add: split_colon_def split: if_splits)
  have ne: "dropWhile (\<lambda>c. c \<noteq> CHR '':'') u \<noteq> []"
    using colon by (simp add: dropWhile_eq_Nil_conv) 
  then have "hd (dropWhile (\<lambda>c. c \<noteq> CHR '':'') u) = CHR '':''"
    using hd_dropWhile [of "\<lambda>c. c \<noteq> CHR '':''" u] by simp
  then have "dropWhile (\<lambda>c. c \<noteq> CHR '':'') u = CHR '':'' # b"
    using ne b by (cases "dropWhile (\<lambda>c. c \<noteq> CHR '':'') u") simp_all
  then have "u = a @ CHR '':'' # b"
    using takeWhile_dropWhile_id [of "\<lambda>c. c \<noteq> CHR '':''" u] a by simp
  moreover have "CHR '':'' \<notin> set a"
    using a set_takeWhileD by fastforce
  ultimately show "u = a @ CHR '':'' # b \<and> CHR '':'' \<notin> set a" by simp
next
  assume h: "u = a @ CHR '':'' # b \<and> CHR '':'' \<notin> set a"
  then have all: "\<forall>c\<in>set a. c \<noteq> CHR '':''" by auto
  have "takeWhile (\<lambda>c. c \<noteq> CHR '':'') u = a"
    using h all by (simp add: takeWhile_append2)
  moreover have "dropWhile (\<lambda>c. c \<noteq> CHR '':'') u = CHR '':'' # b"
    using h all by (simp add: dropWhile_append2)
  ultimately show "split_colon u = Some (a, b)"
    using h by (simp add: split_colon_def)
qed

lemma split_colon_None_iff: "split_colon u = None \<longleftrightarrow> CHR '':'' \<notin> set u"
  by (simp add: split_colon_def)

lemma recRx_Some_iff:
  "recRx url = Some (n, t, ps) \<longleftrightarrow>
     CHR '':'' \<notin> set n \<and> CHR '':'' \<notin> set t
     \<and> (url = n @ '':'' @ t \<and> ps = [] \<or> url = n @ '':'' @ t @ '':'' @ ps)"
proof
  assume "recRx url = Some (n, t, ps)"
  then show "CHR '':'' \<notin> set n \<and> CHR '':'' \<notin> set t
     \<and> (url = n @ '':'' @ t \<and> ps = [] \<or> url = n @ '':'' @ t @ '':'' @ ps)"
    by (auto simp add: recRx_def split_colon_Some_iff split_colon_None_iff split: option.splits)
next
  assume h: "CHR '':'' \<notin> set n \<and> CHR '':'' \<notin> set t
     \<and> (url = n @ '':'' @ t \<and> ps = [] \<or> url = n @ '':'' @ t @ '':'' @ ps)"
  then consider (two) "url = n @ '':'' @ t" "ps = []" | (three) "url = n @ '':'' @ t @ '':'' @ ps"
    by blast
  then show "recRx url = Some (n, t, ps)"
  proof cases
    case two
    have "split_colon url = Some (n, t)" using two h by (simp add: split_colon_Some_iff)
    moreover have "split_colon t = None" using h by (simp add: split_colon_None_iff)
    ultimately show ?thesis using two by (simp add: recRx_def)
  next
    case three
    have "split_colon url = Some (n, t @ '':'' @ ps)" using three h by (simp add: split_colon_Some_iff)
    moreover have "split_colon (t @ '':'' @ ps) = Some (t, ps)" using h by (simp add: split_colon_Some_iff)
    ultimately show ?thesis by (simp add: recRx_def)
  qed
qed

lemma digits_no_colon: "list_all is_digit ds \<Longrightarrow> CHR '':'' \<notin> set ds"
  by (auto simp add: list_all_iff is_digit_def)

lemma paramRx_Some_iff:
  "paramRx ps = Some (h, pt, dl) \<longleftrightarrow>
     ps = h @ '':'' @ pt @ '':'' @ dl \<and> CHR '':'' \<notin> set h
     \<and> pt \<noteq> [] \<and> list_all is_digit pt \<and> dl \<noteq> [] \<and> list_all is_digit dl"
proof
  assume "paramRx ps = Some (h, pt, dl)"
  then show "ps = h @ '':'' @ pt @ '':'' @ dl \<and> CHR '':'' \<notin> set h
     \<and> pt \<noteq> [] \<and> list_all is_digit pt \<and> dl \<noteq> [] \<and> list_all is_digit dl"
    by (auto simp add: paramRx_def split_colon_Some_iff split: option.splits if_splits)
next
  assume h: "ps = h @ '':'' @ pt @ '':'' @ dl \<and> CHR '':'' \<notin> set h
     \<and> pt \<noteq> [] \<and> list_all is_digit pt \<and> dl \<noteq> [] \<and> list_all is_digit dl"
  have "split_colon ps = Some (h, pt @ '':'' @ dl)" using h by (simp add: split_colon_Some_iff)
  moreover have "split_colon (pt @ '':'' @ dl) = Some (pt, dl)"
    using h digits_no_colon [of pt] by (simp add: split_colon_Some_iff)
  ultimately show "paramRx ps = Some (h, pt, dl)" using h by (simp add: paramRx_def)
qed

lemma ntohs_htons: "ntohs (htons x) = x"
  unfolding ntohs_def htons_def
  by (rule bit_word_eqI) (auto simp add: bit_simps)

lemma htons_0: "htons 0 = 0" by (simp add: htons_def)
lemma ntohs_0: "ntohs 0 = 0" by (simp add: ntohs_def)

lemma port_word_nonzero:
  assumes "0 < p" and "p \<le> 65535"
  shows "(word_of_int p :: 16 word) \<noteq> 0"
proof -
  have "uint (word_of_int p :: 16 word) = p"
    using assms by (simp add: uint_word_of_int take_bit_int_eq_self)
  then show ?thesis using assms(1) by auto
qed

lemma toInt_port_range:
  "(\<not> (toInt pt \<le> 0 \<or> toInt pt > 0xFFFF)) \<longleftrightarrow> (1 \<le> decimal pt \<and> decimal pt \<le> 65535)"
  by (auto simp add: toInt_def)

lemma toInt_delay_range:
  "(\<not> (sint (word_of_int (toInt dl) :: 32 word) \<le> 0 \<or> sint (word_of_int (toInt dl) :: 32 word) > 10000000))
     \<longleftrightarrow> (1 \<le> decimal dl \<and> decimal dl \<le> 10000000)"
proof -
  have "0 \<le> toInt dl" "toInt dl < 2147483648" by (auto simp add: toInt_def)
  then have "sint (word_of_int (toInt dl) :: 32 word) = toInt dl"
    by (simp add: sint_sbintrunc' signed_take_bit_int_eq_self)
  then show ?thesis by (auto simp add: toInt_def)
qed

lemma TelescopeTcp_new_initialized:
  "isInitialized (TelescopeTcp_new g raw nm params) \<longleftrightarrow> tcp_params_accepted g params"
proof (cases "paramRx params")
  case None
  have "\<not> tcp_params_accepted g params"
  proof
    assume "tcp_params_accepted g params"
    then obtain h pt dl where "paramRx params = Some (h, pt, dl)"
      unfolding tcp_params_accepted_def paramRx_Some_iff by blast
    then show False using None by simp
  qed
  moreover have "\<not> isInitialized (TelescopeTcp_new g raw nm params)"
    using None by (simp add: TelescopeTcp_new_def isInitialized_def Let_def htons_0 ntohs_0)
  ultimately show ?thesis by simp
next
  case (Some triple)
  obtain h pt dl where triple: "triple = (h, pt, dl)" by (cases triple)
  have rx: "paramRx params = Some (h, pt, dl)" using Some triple by simp
  have shape: "params = h @ '':'' @ pt @ '':'' @ dl \<and> CHR '':'' \<notin> set h
     \<and> pt \<noteq> [] \<and> list_all is_digit pt \<and> dl \<noteq> [] \<and> list_all is_digit dl"
    using rx by (simp add: paramRx_Some_iff)
  have unique: "h' = h \<and> pt' = pt \<and> dl' = dl"
    if "params = h' @ '':'' @ pt' @ '':'' @ dl'" "CHR '':'' \<notin> set h'"
       "pt' \<noteq> []" "list_all is_digit pt'" "dl' \<noteq> []" "list_all is_digit dl'" for h' pt' dl'
  proof -
    have "paramRx params = Some (h', pt', dl')" using that by (simp add: paramRx_Some_iff)
    then show ?thesis using rx by simp
  qed
  have acc: "tcp_params_accepted g params \<longleftrightarrow>
      (1 \<le> decimal pt \<and> decimal pt \<le> 65535 \<and> 1 \<le> decimal dl \<and> decimal dl \<le> 10000000
       \<and> (\<exists>hep. g (trimmed h) = Some hep \<and> h_length hep = 4))"
  proof
    assume "tcp_params_accepted g params"
    then obtain h' pt' dl' hep where w: "params = h' @ '':'' @ pt' @ '':'' @ dl'" "CHR '':'' \<notin> set h'"
       "pt' \<noteq> []" "list_all is_digit pt'" "dl' \<noteq> []" "list_all is_digit dl'"
       "1 \<le> decimal pt'" "decimal pt' \<le> 65535" "1 \<le> decimal dl'" "decimal dl' \<le> 10000000"
       "g (trimmed h') = Some hep" "h_length hep = 4"
      unfolding tcp_params_accepted_def by blast
    have "h' = h \<and> pt' = pt \<and> dl' = dl" using w by (intro unique)
    then show "1 \<le> decimal pt \<and> decimal pt \<le> 65535 \<and> 1 \<le> decimal dl \<and> decimal dl \<le> 10000000
       \<and> (\<exists>hep. g (trimmed h) = Some hep \<and> h_length hep = 4)"
      using w by blast
  next
    assume "1 \<le> decimal pt \<and> decimal pt \<le> 65535 \<and> 1 \<le> decimal dl \<and> decimal dl \<le> 10000000
       \<and> (\<exists>hep. g (trimmed h) = Some hep \<and> h_length hep = 4)"
    then show "tcp_params_accepted g params"
      unfolding tcp_params_accepted_def using shape by blast
  qed
  show ?thesis
  proof (cases "1 \<le> decimal pt \<and> decimal pt \<le> 65535")
    case False
    then have "toInt pt \<le> 0 \<or> toInt pt > 0xFFFF" using toInt_port_range [of pt] by blast
    then have "\<not> isInitialized (TelescopeTcp_new g raw nm params)"
      using rx by (auto simp add: TelescopeTcp_new_def isInitialized_def Let_def htons_0 ntohs_0)
    then show ?thesis using False acc by blast
  next
    case port: True
    then have p: "\<not> (toInt pt \<le> 0 \<or> toInt pt > 0xFFFF)" using toInt_port_range [of pt] by blast
    show ?thesis
    proof (cases "1 \<le> decimal dl \<and> decimal dl \<le> 10000000")
      case False
      then have "sint (word_of_int (toInt dl) :: 32 word) \<le> 0
          \<or> sint (word_of_int (toInt dl) :: 32 word) > 10000000"
        using toInt_delay_range [of dl] by blast
      then have "\<not> isInitialized (TelescopeTcp_new g raw nm params)"
        using rx p by (auto simp add: TelescopeTcp_new_def isInitialized_def Let_def htons_0 ntohs_0)
      then show ?thesis using False acc by blast
    next
      case delay: True
      then have d: "\<not> (sint (word_of_int (toInt dl) :: 32 word) \<le> 0
          \<or> sint (word_of_int (toInt dl) :: 32 word) > 10000000)"
        using toInt_delay_range [of dl] by blast
      have nz: "(word_of_int (toInt pt) :: 16 word) \<noteq> 0"
        using p by (intro port_word_nonzero) auto
      have "isInitialized (TelescopeTcp_new g raw nm params)
          \<longleftrightarrow> (\<exists>hep. g (trimmed h) = Some hep \<and> h_length hep = 4)"
        using rx p d nz
        by (auto simp add: TelescopeTcp_new_def isInitialized_def Let_def htons_0 ntohs_0
            ntohs_htons split: option.splits)
      then show ?thesis using port delay acc by blast
    qed
  qed
qed

text \<open>
  Claim C4, amended. \<^verbatim>\<open>create\<close> returns a telescope exactly for the descriptors of the
  grammar above: the type is \<^verbatim>\<open>Dummy\<close> or \<^verbatim>\<open>TCP\<close>, and for \<^verbatim>\<open>TCP\<close> the parameters are
  \<open>HOST:PORT:DELAY\<close> with the port in \<open>[1, 65535]\<close>, the delay in \<open>[1, 10000000]\<close> and a
  host that resolves to an IPv4 address. A port or delay out of range, an unknown type, a
  host that does not resolve and a string without colon all yield no telescope.
\<close>

theorem create_succeeds_iff_descriptor_accepted:
  "(\<exists>t. create g raw url = Some t) \<longleftrightarrow> descriptor_accepted g url"
proof (cases "recRx url")
  case None
  have "\<not> descriptor_accepted g url"
  proof
    assume "descriptor_accepted g url"
    then obtain n t ps where "recRx url = Some (n, t, ps)"
      unfolding descriptor_accepted_def recRx_Some_iff by blast
    then show False using None by simp
  qed
  then show ?thesis using None by (simp add: create_def)
next
  case (Some triple)
  obtain n t ps where triple: "triple = (n, t, ps)" by (cases triple)
  have rx: "recRx url = Some (n, t, ps)" using Some triple by simp
  have shape: "CHR '':'' \<notin> set n \<and> CHR '':'' \<notin> set t
     \<and> (url = n @ '':'' @ t \<and> ps = [] \<or> url = n @ '':'' @ t @ '':'' @ ps)"
    using rx by (simp add: recRx_Some_iff)
  have acc: "descriptor_accepted g url \<longleftrightarrow>
      (trimmed t = ''Dummy'' \<or> trimmed t = ''TCP'' \<and> tcp_params_accepted g (trimmed ps))"
  proof
    assume "descriptor_accepted g url"
    then obtain n' t' ps' where w:
      "url = n' @ '':'' @ t' \<and> ps' = [] \<or> url = n' @ '':'' @ t' @ '':'' @ ps'"
      "CHR '':'' \<notin> set n'" "CHR '':'' \<notin> set t'"
      "trimmed t' = ''Dummy'' \<or> trimmed t' = ''TCP'' \<and> tcp_params_accepted g (trimmed ps')"
      unfolding descriptor_accepted_def by blast
    have "recRx url = Some (n', t', ps')" using w by (simp add: recRx_Some_iff)
    then have "n' = n \<and> t' = t \<and> ps' = ps" using rx by simp
    then show "trimmed t = ''Dummy'' \<or> trimmed t = ''TCP'' \<and> tcp_params_accepted g (trimmed ps)"
      using w by blast
  next
    assume "trimmed t = ''Dummy'' \<or> trimmed t = ''TCP'' \<and> tcp_params_accepted g (trimmed ps)"
    then show "descriptor_accepted g url"
      unfolding descriptor_accepted_def using shape by blast
  qed
  have "(\<exists>tel. create g raw url = Some tel) \<longleftrightarrow>
      (trimmed t = ''Dummy'' \<or> trimmed t = ''TCP'' \<and> tcp_params_accepted g (trimmed ps))"
    using rx
    by (simp add: create_def Let_def Telescope_isInitialized_def TelescopeTcp_new_initialized)
  then show ?thesis using acc by simp
qed

theorem create_succeeds_iff_descriptor_accepted_witness:
  "descriptor_accepted loopback_only ''Scope2: TCP :127.0.0.1:80:1''"
proof -
  have "\<exists>t. create loopback_only fresh_client ''Scope2: TCP :127.0.0.1:80:1'' = Some t"
    by (simp add: create_def recRx_def split_colon_def trimmed_def is_space_def
        TelescopeTcp_new_def paramRx_def is_digit_def toInt_def decimal_def isInitialized_def
        ntohs_def htons_def Let_def hangup_def loopback_only_def)
  then show ?thesis
    using create_succeeds_iff_descriptor_accepted [of loopback_only fresh_client "''Scope2: TCP :127.0.0.1:80:1''"] by blast
qed

text \<open>
  Claim C4 as stated fails: this descriptor has the shape of the grammar, the type is the
  stream type the code knows, port and delay are decimal and in range, and no telescope
  is returned, because the host does not resolve.
\<close>

theorem create_unresolved_host_counterexample:
  "recRx ''Scope1:TCP:stellarium.invalid:10001:500000''
     = Some (''Scope1'', ''TCP'', ''stellarium.invalid:10001:500000'')
   \<and> paramRx ''stellarium.invalid:10001:500000'' = Some (''stellarium.invalid'', ''10001'', ''500000'')
   \<and> toInt ''10001'' = 10001 \<and> toInt ''500000'' = 500000
   \<and> loopback_only ''stellarium.invalid'' = None
   \<and> create loopback_only fresh_client ''Scope1:TCP:stellarium.invalid:10001:500000'' = None"
  by (simp add: create_def recRx_def split_colon_def trimmed_def is_space_def
        TelescopeTcp_new_def paramRx_def is_digit_def toInt_def decimal_def isInitialized_def
        ntohs_def htons_def Let_def hangup_def loopback_only_def)

text \<open>
  Claim C8 as stated fails: the type of a stream telescope is spelled \<^verbatim>\<open>TCP\<close>; the type
  \<^verbatim>\<open>Stream\<close> is unknown to the factory, which returns nothing for it.
\<close>

theorem create_Stream_descriptor_counterexample:
  "create loopback_only fresh_client ''Scope1:Stream:127.0.0.1:10001:500000'' = None"
  by (simp add: create_def recRx_def split_colon_def trimmed_def is_space_def)

text \<open>
  Claim C8, amended. For the descriptor \<^verbatim>\<open>Scope1:TCP:127.0.0.1:10001:500000\<close>, and a resolver
  that maps \<^verbatim>\<open>127.0.0.1\<close> to itself as every resolver does with a dotted address, the
  factory returns a TCP telescope named \<^verbatim>\<open>Scope1\<close>: the parameters split into host
  \<^verbatim>\<open>127.0.0.1\<close>, port \<^verbatim>\<open>10001\<close> and delay \<^verbatim>\<open>500000\<close>, and the object holds the address
  127.0.0.1, the port 10001 (in network byte order) and the delay of 500000 microseconds.
\<close>

theorem create_TCP_descriptor:
  assumes "gethostbyname ''127.0.0.1'' = Some \<lparr>h_length = 4, h_addr = [127, 0, 0, 1]\<rparr>"
  shows "paramRx ''127.0.0.1:10001:500000'' = Some (''127.0.0.1'', ''10001'', ''500000'')
    \<and> (\<exists>t. create gethostbyname raw ''Scope1:TCP:127.0.0.1:10001:500000'' = Some (Tcp t)
          \<and> name t = ''Scope1''
          \<and> sin_addr (address t) = [127, 0, 0, 1]
          \<and> ntohs (sin_port (address t)) = 10001
          \<and> time_delay t = 500000)"
  using assms
  by (simp add: create_def recRx_def split_colon_def trimmed_def is_space_def TelescopeTcp_new_def
     paramRx_def is_digit_def toInt_def decimal_def isInitialized_def ntohs_def htons_def Let_def hangup_def)

theorem create_TCP_descriptor_witness:
  "\<exists>t. create loopback_only fresh_client ''Scope1:TCP:127.0.0.1:10001:500000'' = Some (Tcp t)
          \<and> ntohs (sin_port (address t)) = 10001 \<and> time_delay t = 500000"
proof -
  have h: "loopback_only ''127.0.0.1'' = Some \<lparr>h_length = 4, h_addr = [127, 0, 0, 1]\<rparr>"
    by (simp add: loopback_only_def)
  show ?thesis using create_TCP_descriptor [of loopback_only fresh_client] h by blast
qed

section \<open>The inbound frame parser\<close>

lemma le16_plus: "le16 a b = (ucast a :: 32 word) + push_bit 8 (ucast b)"
  unfolding le16_def
  by (rule disjunctive_add_eq_or [symmetric]) (rule bit_word_eqI, auto simp add: bit_simps dest: bit_imp_le_length)

lemma unat_byte_less: "unat (a :: byte) < 256"
  using unsigned_less [of a, where 'a = nat] by simp

lemma unat_le16: "unat (le16 a b) = unat a + 256 * unat b"
proof -
  have la: "unat a < 256" and lb: "unat b < 256" by (rule unat_byte_less)+
  have a: "unat (ucast a :: 32 word) = unat a"
    using la by (simp add: unsigned_ucast_eq take_bit_nat_eq_self)
  have b: "unat (ucast b :: 32 word) = unat b"
    using lb by (simp add: unsigned_ucast_eq take_bit_nat_eq_self)
  have "unat (push_bit 8 (ucast b :: 32 word)) = take_bit 32 (push_bit 8 (unat (ucast b :: 32 word)))"
    by (simp only: unsigned_push_bit_eq len_num1 len_bit0 mult_1_right) simp
  also have "\<dots> = take_bit 32 (256 * unat b)"
    by (simp only: b push_bit_eq_mult) (simp add: mult.commute)
  also have "\<dots> = 256 * unat b"
    using lb by (intro take_bit_nat_eq_self) simp
  finally have pb: "unat (push_bit 8 (ucast b :: 32 word)) = 256 * unat b" .
  have "unat (le16 a b) = (unat (ucast a :: 32 word) + unat (push_bit 8 (ucast b :: 32 word))) mod 2 ^ 32"
    unfolding le16_plus by (simp add: unat_word_ariths)
  then show ?thesis using la lb by (simp add: a pb)
qed

lemma sint_le16: "sint (le16 a b) = int (unat a + 256 * unat b)"
proof -
  have la: "unat a < 256" and lb: "unat b < 256" by (rule unat_byte_less)+
  have "uint (le16 a b) = int (unat a + 256 * unat b)"
    by (simp only: uint_nat unat_le16)
  moreover have "signed_take_bit 31 (int (unat a + 256 * unat b)) = int (unat a + 256 * unat b)"
  proof (rule signed_take_bit_int_eq_self)
    have "- (2 ^ 31) \<le> (0::int)" by simp
    also have "0 \<le> int (unat a + 256 * unat b)" by (rule of_nat_0_le_iff)
    finally show "- (2 ^ 31) \<le> int (unat a + 256 * unat b)" .
    have "unat a + 256 * unat b < 2147483648" using la lb by simp
    then have "int (unat a + 256 * unat b) < 2147483648" by linarith
    also have "(2147483648::int) = 2 ^ 31" by simp
    finally show "int (unat a + 256 * unat b) < 2 ^ 31" .
  qed
  ultimately show ?thesis by (simp only: sint_uint) simp
qed

lemma read_buff_store_position [simp]:
  "read_buff (store_position s srv ra_int dec_int st now) = read_buff s"
  by (simp add: store_position_def Let_def)

lemma hangup_store_position [simp]:
  "hangup (store_position s srv ra_int dec_int st now) = hangup s"
  by (simp add: store_position_def hangup_def Let_def)

lemma inbound_store_position [simp]:
  "inbound (store_position s srv ra_int dec_int st now) = inbound s"
  by (simp add: inbound_def read_buff_end_store_position)

lemma parse_packets_frames:
  assumes "read_buff_end s \<le> length (read_buff s)" and "p \<le> read_buff_end s"
  shows "case frames (drop p (inbound s)) of
            Disconnect \<Rightarrow> parse_packets clock s p n = hangup s
          | Wait fs rest \<Rightarrow>
              parse_packets clock s p n
                = compact_read_buff (store_frames clock n s fs) (read_buff_end s - length rest)
              \<and> rest = drop (read_buff_end s - length rest) (inbound s)
              \<and> length rest \<le> read_buff_end s - p"
  using assms
proof (induction "read_buff_end s - p" arbitrary: s p n rule: less_induct)
  case less
  define bs where "bs = drop p (inbound s)"
  define L where "L = frame_length bs"
  define T where "T = frame_type bs"
  have wf: "read_buff_end s \<le> length (read_buff s)" and pe: "p \<le> read_buff_end s"
    using less.prems by simp_all
  have lbs: "length bs = read_buff_end s - p"
    using wf by (simp add: bs_def inbound_def)
  have nth: "bs ! i = read_buff s ! (p + i)" if "i < read_buff_end s - p" for i
    using that wf pe by (simp add: bs_def inbound_def)
  show ?case
  proof (cases "length bs < 2")
    case True
    have f: "frames bs = Wait [] bs"
      using True by (subst frames.simps) simp
    have c: "\<not> 2 \<le> int (read_buff_end s) - int p"
      using True lbs by linarith
    have pp: "parse_packets clock s p n = compact_read_buff s p"
      using c by (subst parse_packets.simps) simp
    have "read_buff_end s - length bs = p" using lbs pe by simp
    then show ?thesis
      using f pp lbs unfolding bs_def [symmetric] by (simp add: bs_def)
  next
    case False
    then have two: "2 \<le> read_buff_end s - p" using lbs by simp
    have c1: "2 \<le> int (read_buff_end s) - int p" using two by linarith
    have size_eq: "sint (le16 (read_buff s ! p) (read_buff s ! (p + 1))) = int L"
      using nth [of 0] nth [of 1] two by (simp add: sint_le16 L_def frame_length_def)
    show ?thesis
    proof (cases "L < 4 \<or> 120 < L")
      case True
      have f: "frames bs = Disconnect"
        using False True by (subst frames.simps) (simp add: L_def)
      have pp: "parse_packets clock s p n = hangup s"
        using c1 True by (subst parse_packets.simps, simp only: size_eq Let_def) (auto simp add: sizeof_buff_def)
      show ?thesis using f pp unfolding bs_def [symmetric] by simp
    next
      case inrange: False
      show ?thesis
      proof (cases "length bs < L")
        case True
        have f: "frames bs = Wait [] bs"
          using False inrange True by (subst frames.simps) (simp add: L_def)
        have c3: "int (read_buff_end s) - int p < int L" using True lbs pe by linarith
        have pp: "parse_packets clock s p n = compact_read_buff s p"
          using c1 inrange c3
          by (subst parse_packets.simps, simp only: size_eq Let_def) (auto simp add: sizeof_buff_def)
        have "read_buff_end s - length bs = p" using lbs pe by simp
        then show ?thesis
          using f pp lbs unfolding bs_def [symmetric] by (simp add: bs_def)
      next
        case complete: False
        have Lle: "L \<le> read_buff_end s - p" using complete lbs by simp
        have L4: "4 \<le> L" "L \<le> 120" using inrange by simp_all
        have c3: "\<not> int (read_buff_end s) - int p < int L" using Lle pe by linarith
        have type_eq: "sint (le16 (read_buff s ! (p + 2)) (read_buff s ! (p + 3))) = int T"
          using nth [of 2] nth [of 3] Lle L4 by (simp add: sint_le16 T_def frame_type_def)
        have meas: "read_buff_end s - (p + L) < read_buff_end s - p"
          using Lle L4 by linarith
        have dropL: "drop (p + L) (inbound s) = drop L bs"
          by (simp add: bs_def add.commute)
        show ?thesis
        proof (cases "T = 0")
          case nonzero: False
          have f: "frames bs = frames (drop L bs)"
            using False inrange complete nonzero
            by (subst frames.simps) (simp add: L_def T_def)
          have pp: "parse_packets clock s p n = parse_packets clock s (p + L) n"
            using c1 inrange c3 nonzero
            by (subst parse_packets.simps, simp only: size_eq type_eq Let_def) (auto simp add: sizeof_buff_def)
          have ih: "case frames (drop (p + L) (inbound s)) of
              Disconnect \<Rightarrow> parse_packets clock s (p + L) n = hangup s
            | Wait fs rest \<Rightarrow>
                parse_packets clock s (p + L) n
                  = compact_read_buff (store_frames clock n s fs) (read_buff_end s - length rest)
                \<and> rest = drop (read_buff_end s - length rest) (inbound s)
                \<and> length rest \<le> read_buff_end s - (p + L)"
            using meas wf Lle pe by (intro less.hyps) simp_all
          show ?thesis
            using ih unfolding dropL bs_def [symmetric] f pp
            by (auto split: parse_outcome.splits)
        next
          case zero: True
          show ?thesis
          proof (cases "L < 24")
            case True
            have f: "frames bs = Disconnect"
              using False inrange complete zero True
              by (subst frames.simps) (simp add: L_def T_def)
            have pp: "parse_packets clock s p n = hangup s"
              using c1 inrange c3 zero True
              by (subst parse_packets.simps, simp only: size_eq type_eq Let_def) (auto simp add: sizeof_buff_def)
            show ?thesis using f pp unfolding bs_def [symmetric] by simp
          next
            case long: False
            define s' where "s' = store_frame s (take L bs) (clock n)"
            have t8: "take 8 (drop 4 (take L bs)) = take 8 (drop (p + 4) (read_buff s))"
            proof -
              have "take 8 (drop 4 (take L bs)) = take 8 (drop 4 bs)"
                using long by (simp add: drop_take min_def)
              also have "drop 4 bs = take (read_buff_end s - (p + 4)) (drop (p + 4) (read_buff s))"
                by (simp add: bs_def inbound_def drop_take add.commute)
              also have "take 8 \<dots> = take 8 (drop (p + 4) (read_buff s))"
                using Lle long by (simp add: min_def)
              finally show ?thesis .
            qed
            have nthL: "take L bs ! i = read_buff s ! (p + i)" if "i < 24" for i
              using that long Lle nth [of i] by simp
            have s'_eq: "s' = store_position s
                         (le64 (take 8 (drop (p + 4) (read_buff s))))
                         (le32 (read_buff s ! (p + 12)) (read_buff s ! (p + 13))
                               (read_buff s ! (p + 14)) (read_buff s ! (p + 15)))
                         (le32 (read_buff s ! (p + 16)) (read_buff s ! (p + 17))
                               (read_buff s ! (p + 18)) (read_buff s ! (p + 19)))
                         (le32 (read_buff s ! (p + 20)) (read_buff s ! (p + 21))
                               (read_buff s ! (p + 22)) (read_buff s ! (p + 23)))
                         (clock n)"
              unfolding s'_def store_frame_def t8 by (simp add: nthL)
            have f: "frames bs = (case frames (drop L bs) of
                 Disconnect \<Rightarrow> Disconnect
               | Wait fs rest \<Rightarrow> Wait (take L bs # fs) rest)"
              using False inrange complete zero long unfolding L_def T_def
              by (subst frames.simps) simp
            have pp: "parse_packets clock s p n = parse_packets clock s' (p + L) (Suc n)"
              unfolding s'_eq using c1 inrange c3 zero long
              by (subst parse_packets.simps, simp only: size_eq type_eq Let_def) (auto simp add: sizeof_buff_def)
            have e': "read_buff_end s' = read_buff_end s" "read_buff s' = read_buff s"
              "inbound s' = inbound s" "hangup s' = hangup s"
              unfolding s'_eq by (simp_all add: read_buff_end_store_position)
            have ih: "case frames (drop (p + L) (inbound s')) of
                Disconnect \<Rightarrow> parse_packets clock s' (p + L) (Suc n) = hangup s'
              | Wait fs rest \<Rightarrow>
                  parse_packets clock s' (p + L) (Suc n)
                    = compact_read_buff (store_frames clock (Suc n) s' fs) (read_buff_end s' - length rest)
                  \<and> rest = drop (read_buff_end s' - length rest) (inbound s')
                  \<and> length rest \<le> read_buff_end s' - (p + L)"
              using meas wf Lle pe by (intro less.hyps) (simp_all add: e')
            have st: "store_frames clock n s (take L bs # fs) = store_frames clock (Suc n) s' fs" for fs
              by (simp add: s'_def)
            show ?thesis
              using ih unfolding e' dropL bs_def [symmetric] f pp
              by (auto simp add: s'_def split: parse_outcome.splits)
          qed
        qed
      qed
    qed
  qed
qed


lemma store_frame_read_buff:
  "store_frame (s\<lparr>read_buff := b, read_buff_end := e\<rparr>) f now
     = (store_frame s f now)\<lparr>read_buff := b, read_buff_end := e\<rparr>"
  by (simp add: store_frame_def store_position_def Let_def)

lemma store_frames_read_buff:
  "store_frames clock n (s\<lparr>read_buff := b, read_buff_end := e\<rparr>) fs
     = (store_frames clock n s fs)\<lparr>read_buff := b, read_buff_end := e\<rparr>"
  by (induction fs arbitrary: s n) (simp_all add: store_frame_read_buff)

lemma store_frame_keeps_read_buff:
  "read_buff (store_frame s f now) = read_buff s
   \<and> read_buff_end (store_frame s f now) = read_buff_end s"
  by (simp add: store_frame_def store_position_def Let_def)

lemma store_frames_keeps_read_buff:
  "read_buff (store_frames clock n s fs) = read_buff s
   \<and> read_buff_end (store_frames clock n s fs) = read_buff_end s"
  by (induction fs arbitrary: s n) (simp_all add: store_frame_keeps_read_buff)

lemma compact_read_buff_inbound:
  assumes wf: "read_buff_end t \<le> length (read_buff t)" and q: "q \<le> read_buff_end t"
  shows "inbound (compact_read_buff t q) = drop q (inbound t)
       \<and> read_buff_end (compact_read_buff t q) = read_buff_end t - q
       \<and> length (read_buff (compact_read_buff t q)) = length (read_buff t)
       \<and> (compact_read_buff t q)\<lparr>read_buff := [], read_buff_end := 0\<rparr>
           = t\<lparr>read_buff := [], read_buff_end := 0\<rparr>"
proof (cases "q \<ge> read_buff_end t")
  case True
  then show ?thesis using q by (simp add: compact_read_buff_def inbound_def)
next
  case False
  then have lt: "q < read_buff_end t" by simp
  have "take (read_buff_end t - q) (drop q (read_buff t)) = drop q (take (read_buff_end t) (read_buff t))"
    by (simp add: drop_take)
  then show ?thesis
    using lt wf by (simp add: compact_read_buff_def inbound_def memmove_def min_def)
qed

text \<open>
  Claim C3, amended. After a read that delivered at least one byte, the bytes buffered
  before it followed by the new bytes are parsed as \<open>frames\<close> describes: the length is
  tested against \<open>[4, 120]\<close> before it is compared with the number of buffered bytes,
  and a type-0 frame shorter than 24 bytes forces a disconnect too. On \<open>Disconnect\<close> the
  client is what \<^verbatim>\<open>hangup\<close> makes of it: socket closed, both queues empty, history reset.
  Otherwise the accepted position frames have been stored in order, every other frame has
  been skipped by its length, the unparsed rest lies at the front of the read buffer for
  the next read, and nothing else in the client has changed.
\<close>

theorem performReading_parses_frames:
  assumes wf: "read_buff_end s \<le> length (read_buff s)"
    and data: "data \<noteq> []" "read_buff_end s + length data \<le> length (read_buff s)"
  shows "case frames (inbound s @ data) of
           Disconnect \<Rightarrow>
             connection_state (performReading s (RecvBytes data) clock) = Disconnected
             \<and> read_buff_end (performReading s (RecvBytes data) clock) = 0
             \<and> (performReading s (RecvBytes data) clock)\<lparr>read_buff := []\<rparr>
                 = (hangup s)\<lparr>read_buff := []\<rparr>
         | Wait fs rest \<Rightarrow>
             inbound (performReading s (RecvBytes data) clock) = rest
             \<and> read_buff_end (performReading s (RecvBytes data) clock) = length rest
             \<and> length (read_buff (performReading s (RecvBytes data) clock)) = length (read_buff s)
             \<and> (performReading s (RecvBytes data) clock)\<lparr>read_buff := [], read_buff_end := 0\<rparr>
                 = (store_frames clock 0 s fs)\<lparr>read_buff := [], read_buff_end := 0\<rparr>"
proof -
  define b1 where "b1 = take (read_buff_end s) (read_buff s) @ data
      @ drop (read_buff_end s + length data) (read_buff s)"
  define s1 where "s1 = s\<lparr>read_buff := b1, read_buff_end := read_buff_end s + length data\<rparr>"
  have r: "performReading s (RecvBytes data) clock = parse_packets clock s1 0 0"
    using data(1) by (simp add: performReading_def s1_def b1_def)
  have len1: "length (read_buff s1) = length (read_buff s)"
    using wf data(2) by (simp add: s1_def b1_def)
  have end1: "read_buff_end s1 = read_buff_end s + length data"
    by (simp add: s1_def)
  have in1: "inbound s1 = inbound s @ data"
    using wf by (simp add: inbound_def s1_def b1_def)
  have wf1: "read_buff_end s1 \<le> length (read_buff s1)"
    using data(2) len1 end1 by simp
  have pf: "case frames (drop 0 (inbound s1)) of
            Disconnect \<Rightarrow> parse_packets clock s1 0 0 = hangup s1
          | Wait fs rest \<Rightarrow>
              parse_packets clock s1 0 0
                = compact_read_buff (store_frames clock 0 s1 fs) (read_buff_end s1 - length rest)
              \<and> rest = drop (read_buff_end s1 - length rest) (inbound s1)
              \<and> length rest \<le> read_buff_end s1 - 0"
    using wf1 by (intro parse_packets_frames) simp_all
  show ?thesis
  proof (cases "frames (inbound s @ data)")
    case Disconnect
    then have "parse_packets clock s1 0 0 = hangup s1" using pf by (simp add: in1)
    then have "performReading s (RecvBytes data) clock = hangup s1" using r by simp
    then show ?thesis
      using Disconnect
      by (simp add: s1_def hangup_def connection_state_def IS_INVALID_SOCKET_def INVALID_SOCKET_def)
  next
    case (Wait fs rest)
    define t where "t = store_frames clock 0 s1 fs"
    define q where "q = read_buff_end s1 - length rest"
    have p1: "parse_packets clock s1 0 0 = compact_read_buff t q"
      and rest: "rest = drop q (inbound s1)" and lr: "length rest \<le> read_buff_end s1"
      using pf Wait by (simp_all add: in1 t_def q_def)
    have tb: "read_buff t = read_buff s1" "read_buff_end t = read_buff_end s1"
      using store_frames_keeps_read_buff [of clock 0 s1 fs] by (simp_all add: t_def)
    have it: "inbound t = inbound s1" by (simp add: inbound_def tb)
    have wft: "read_buff_end t \<le> length (read_buff t)" using wf1 tb by simp
    have qt: "q \<le> read_buff_end t" by (simp add: q_def tb)
    have c: "inbound (compact_read_buff t q) = drop q (inbound t)
       \<and> read_buff_end (compact_read_buff t q) = read_buff_end t - q
       \<and> length (read_buff (compact_read_buff t q)) = length (read_buff t)
       \<and> (compact_read_buff t q)\<lparr>read_buff := [], read_buff_end := 0\<rparr>
           = t\<lparr>read_buff := [], read_buff_end := 0\<rparr>"
      using wft qt by (rule compact_read_buff_inbound)
    have t0: "t\<lparr>read_buff := [], read_buff_end := 0\<rparr>
        = (store_frames clock 0 s fs)\<lparr>read_buff := [], read_buff_end := 0\<rparr>"
      by (simp add: t_def s1_def store_frames_read_buff)
    have e: "read_buff_end t - q = length rest" using lr by (simp add: q_def tb)
    show ?thesis
      using Wait c t0 e rest len1 unfolding r p1 by (simp add: it tb)
  qed
qed

text \<open>
  Claim C3 as stated fails at two inputs, on a connection with an empty read buffer.
  The two bytes \<open>3, 0\<close> announce a frame of three bytes, more than are buffered: the
  client does not wait for the third byte, it disconnects. The four bytes \<open>4, 0, 0, 0\<close>
  are a complete frame whose length 4 lies in \<open>[4, 120]\<close>: the client does not consume it,
  it disconnects, because a frame of type 0 must have 24 bytes.
\<close>

theorem performReading_short_frames_counterexample:
  "connection_state connected_client = Connected
   \<and> inbound connected_client = []
   \<and> connection_state (performReading connected_client (RecvBytes [3, 0]) (\<lambda>_. 0)) = Disconnected
   \<and> connection_state (performReading connected_client (RecvBytes [4, 0, 0, 0]) (\<lambda>_. 0)) = Disconnected"
  by (simp add: connected_client_eq fresh_client_def performReading_def parse_packets.simps le16_def hangup_def
      connection_state_def IS_INVALID_SOCKET_def INVALID_SOCKET_def sizeof_buff_def inbound_def Let_def)

text \<open>
  A frame of the unknown type 7 followed by one byte of the next frame: the frame is
  skipped, the byte stays at the front of the buffer, the connection stays up.
\<close>

theorem performReading_parses_frames_witness:
  "inbound (performReading connected_client (RecvBytes [4, 0, 7, 0, 9]) (\<lambda>_. 0)) = [9]
   \<and> connection_state (performReading connected_client (RecvBytes [4, 0, 7, 0, 9]) (\<lambda>_. 0)) = Connected"
proof -
  have wf: "read_buff_end connected_client \<le> length (read_buff connected_client)"
    and fits: "read_buff_end connected_client + length [4, 0, 7, 0, 9 :: byte]
        \<le> length (read_buff connected_client)"
    by (simp_all add: connected_client_eq fresh_client_def)
  have f: "frames (inbound connected_client @ [4, 0, 7, 0, 9]) = Wait [] [9]"
    by (simp add: inbound_def connected_client_eq fresh_client_def frames.simps frame_length_def frame_type_def)
  have r: "inbound (performReading connected_client (RecvBytes [4, 0, 7, 0, 9]) (\<lambda>_. 0)) = [9]
      \<and> (performReading connected_client (RecvBytes [4, 0, 7, 0, 9]) (\<lambda>_. 0))
           \<lparr>read_buff := [], read_buff_end := 0\<rparr>
         = connected_client\<lparr>read_buff := [], read_buff_end := 0\<rparr>"
    using performReading_parses_frames [of connected_client "[4, 0, 7, 0, 9]" "\<lambda>_. 0", OF wf _ fits] f by simp
  then have "fd ((performReading connected_client (RecvBytes [4, 0, 7, 0, 9]) (\<lambda>_. 0))
           \<lparr>read_buff := [], read_buff_end := 0\<rparr>) = fd (connected_client\<lparr>read_buff := [], read_buff_end := 0\<rparr>)"
     and "wait_for_connection_establishment ((performReading connected_client (RecvBytes [4, 0, 7, 0, 9]) (\<lambda>_. 0))
           \<lparr>read_buff := [], read_buff_end := 0\<rparr>) = wait_for_connection_establishment (connected_client\<lparr>read_buff := [], read_buff_end := 0\<rparr>)"
    by simp_all
  then have "connection_state (performReading connected_client (RecvBytes [4, 0, 7, 0, 9]) (\<lambda>_. 0)) = Connected"
    by (simp add: connection_state_def connected_client_eq fresh_client_def IS_INVALID_SOCKET_def)
  then show ?thesis using r by simp
qed

end
